theory Spec2Isabelle
  imports Main "HOL-Library.Word"
begin

unbundle bit_operations_syntax

section \<open>net-bouncer: data model\<close>

text \<open>
  A shallow embedding of \<^verbatim>\<open>net-bouncer.c\<close>. The file-scope variables and the
  \<^verbatim>\<open>wait_list\<close> array of \<^verbatim>\<open>main\<close> form one record that every function takes and
  returns. Everything the process does to the outside (a system call on a socket, a
  line written to a stream) is appended to one ordered list of events, so that the
  order between logging and socket calls can be stated. What the operating system
  answers is an argument of the function that asks.
\<close>

subsection \<open>Platform constants (Linux, glibc)\<close>

definition AF_UNSPEC :: int where "AF_UNSPEC = 0"
definition AF_INET :: int where "AF_INET = 2"
definition AF_INET6 :: int where "AF_INET6 = 10"
definition EINTR :: int where "EINTR = 4"
definition EINVAL :: int where "EINVAL = 22"
definition POLLIN :: "16 word" where "POLLIN = 1"
definition INET_ADDRSTRLEN :: nat where "INET_ADDRSTRLEN = 16"
definition INET6_ADDRSTRLEN :: nat where "INET6_ADDRSTRLEN = 46"
definition sizeof_sockaddr_in :: nat where "sizeof_sockaddr_in = 16"
definition sizeof_sockaddr_in6 :: nat where "sizeof_sockaddr_in6 = 28"
definition SIGINT :: int where "SIGINT = 2"
definition SIGABRT :: int where "SIGABRT = 6"
definition SIGTERM :: int where "SIGTERM = 15"

subsection \<open>Constants of the program\<close>

definition MAX_CONNECTIONS :: int where "MAX_CONNECTIONS = 50"
definition MAX_PORTS :: nat where "MAX_PORTS = 50"

datatype log_level = LOG_ERROR | LOG_WARNING | LOG_INFO | LOG_DEBUG

text \<open>The enumerators' values: \<^verbatim>\<open>LOG_ERROR = 0\<close> and then counting up.\<close>

fun level_num :: "log_level \<Rightarrow> int" where
  "level_num LOG_ERROR = 0"
| "level_num LOG_WARNING = 1"
| "level_num LOG_INFO = 2"
| "level_num LOG_DEBUG = 3"

definition LOG_LEVELS :: "string list" where
  "LOG_LEVELS = [''ERROR'', ''WARNING'', ''INFO'', ''DEBUG'']"

subsection \<open>Streams, events and the process state\<close>

datatype stream = Stderr | LogFile string

text \<open>
  One event per call that leaves the process. The last argument of a socket call is
  what the call returned; the others are the descriptor (the address family for
  \<^verbatim>\<open>socket\<close>), then for \<^verbatim>\<open>bind\<close> the family of the address and the port number that
  \<^verbatim>\<open>htons\<close> is given, for \<^verbatim>\<open>listen\<close> the backlog, for \<^verbatim>\<open>poll\<close> the number of
  entries. \<open>EvWrite\<close> records the \<^verbatim>\<open>FILE *\<close> handed to
  \<^verbatim>\<open>fprintf\<close>/\<^verbatim>\<open>fputs\<close> (\<open>None\<close> is \<^verbatim>\<open>NULL\<close>) and the text written.
\<close>

datatype event =
    EvSocket int int
  | EvSetsockopt int int
  | EvBind int int "16 word" int
  | EvListen int int int
  | EvPoll nat int
  | EvAccept int int
  | EvClose int
  | EvWrite "stream option" string

record pollfd =
  fd :: int
  events :: "16 word"
  revents :: "16 word"

record state =
  global_running :: bool
  global_log_file :: "string option"
  global_log :: "stream option"
  global_level :: log_level
  global_family :: int
  global_ports :: "int list"
  global_port_count :: nat
  wait_list :: "pollfd list"
  trace :: "event list"

text \<open>
  The static initialisers of the file. \<^verbatim>\<open>global_ports\<close> is a zero-initialised array
  of \<^verbatim>\<open>MAX_PORTS\<close> ints; \<^verbatim>\<open>wait_list\<close> is the array \<^verbatim>\<open>main\<close> clears with
  \<^verbatim>\<open>memset\<close>.
\<close>

definition zero_pollfd :: pollfd where
  "zero_pollfd = \<lparr>fd = 0, events = 0, revents = 0\<rparr>"

definition init_state :: state where
  "init_state =
     \<lparr>global_running = True,
      global_log_file = None,
      global_log = None,
      global_level = LOG_INFO,
      global_family = AF_INET,
      global_ports = replicate MAX_PORTS 0,
      global_port_count = 0,
      wait_list = replicate MAX_PORTS zero_pollfd,
      trace = []\<rparr>"

definition emit :: "event \<Rightarrow> state \<Rightarrow> state" where
  "emit e st = st\<lparr>trace := trace st @ [e]\<rparr>"

subsection \<open>The C library, as far as the program's text depends on it\<close>

text \<open>
  \<^verbatim>\<open>strerror\<close> and the IPv6 half of \<^verbatim>\<open>inet_ntop\<close> are arguments of the model.
  \<open>uninit\<close> is what an uninitialised \<^verbatim>\<open>char address[]\<close> happens to hold when
  \<^verbatim>\<open>inet_ntop\<close> fails and leaves the buffer alone.
\<close>

record libc =
  strerror :: "int \<Rightarrow> string"
  ntop6 :: "16 word list \<Rightarrow> string"
  uninit :: string

text \<open>The conversion \<^verbatim>\<open>%d\<close> of \<^verbatim>\<open>printf\<close>.\<close>

definition digit :: "nat \<Rightarrow> char" where
  "digit d = ''0123456789'' ! d"

function string_of_nat :: "nat \<Rightarrow> string" where
  "string_of_nat n =
     (if n < 10 then [digit n] else string_of_nat (n div 10) @ [digit (n mod 10)])"
  by pat_completeness auto
termination
  by (relation "measure id") auto

declare string_of_nat.simps [simp del]

definition string_of_int :: "int \<Rightarrow> string" where
  "string_of_int i = (if i < 0 then ''-'' @ string_of_nat (nat (- i)) else string_of_nat (nat i))"

section \<open>The logger\<close>

text \<open>
  \<^verbatim>\<open>log_message\<close>: the level test, then one line on \<^verbatim>\<open>global_log\<close>. The argument
  \<open>msg\<close> is the message after \<^verbatim>\<open>vfprintf\<close> has filled the format in. The date and
  millisecond prefix comes from the real-time clock and is left out of the recorded
  text, which starts at the bracketed level and ends before the newline that
  \<^verbatim>\<open>fputc\<close> adds. The three writes and the \<^verbatim>\<open>fflush\<close> are one event.
\<close>

definition log_message :: "log_level \<Rightarrow> string \<Rightarrow> state \<Rightarrow> state" where
  "log_message level msg st =
     (if level_num level > level_num (global_level st) \<or> level_num level < 0 then st
      else emit (EvWrite (global_log st)
             (''['' @ LOG_LEVELS ! nat (level_num level) @ ''] '' @ msg)) st)"

definition log_error :: "libc \<Rightarrow> string \<Rightarrow> int \<Rightarrow> state \<Rightarrow> state" where
  "log_error L message err st = log_message LOG_ERROR (message @ '': '' @ strerror L err) st"

subsection \<open>Socket addresses\<close>

text \<open>
  \<^verbatim>\<open>struct in_addr\<close> holds the four bytes of an IPv4 address in network order, and
  \<^verbatim>\<open>sin_port\<close> is the 16-bit field as it lies in the structure (network byte order).
\<close>

datatype in_addr = In_addr "8 word" "8 word" "8 word" "8 word"

record sockaddr_in =
  sin_port :: "16 word"
  sin_addr :: in_addr

record sockaddr_in6 =
  sin6_port :: "16 word"
  sin6_addr :: "16 word list"

datatype sockaddr = Sockaddr_in sockaddr_in | Sockaddr_in6 sockaddr_in6

text \<open>
  \<^verbatim>\<open>inet_ntop\<close>: the dotted-decimal text of an IPv4 address, and the size test that
  makes the call fail (\<^verbatim>\<open>ENOSPC\<close>, \<^verbatim>\<open>NULL\<close> returned, buffer untouched) when the text
  and its terminator do not fit in the size the caller passed.
\<close>

fun ntop4 :: "in_addr \<Rightarrow> string" where
  "ntop4 (In_addr a b c d) =
     string_of_nat (unat a) @ ''.'' @ string_of_nat (unat b) @ ''.'' @
     string_of_nat (unat c) @ ''.'' @ string_of_nat (unat d)"

definition inet_ntop :: "string \<Rightarrow> nat \<Rightarrow> string option" where
  "inet_ntop text sz = (if sz < length text + 1 then None else Some text)"

text \<open>
  \<^verbatim>\<open>log_connection_ipv4\<close> and \<^verbatim>\<open>log_connection_ipv6\<close>. Both pass the size of the
  socket address structure to \<^verbatim>\<open>inet_ntop\<close> (the buffers, of \<^verbatim>\<open>INET_ADDRSTRLEN\<close> and
  \<^verbatim>\<open>INET6_ADDRSTRLEN\<close> bytes, are at least that long), and both print the port field
  of the address they are given with \<^verbatim>\<open>%d\<close>, as the field lies in the structure.
\<close>

definition log_connection_ipv4 :: "libc \<Rightarrow> log_level \<Rightarrow> sockaddr_in \<Rightarrow> state \<Rightarrow> state" where
  "log_connection_ipv4 L level source st =
     (let address = (case inet_ntop (ntop4 (sin_addr source)) sizeof_sockaddr_in of
                       Some text \<Rightarrow> text | None \<Rightarrow> uninit L)
      in log_message level
           (''Connection from '' @ address @ '' on port '' @ string_of_int (uint (sin_port source)))
           st)"

definition log_connection_ipv6 :: "libc \<Rightarrow> log_level \<Rightarrow> sockaddr_in6 \<Rightarrow> state \<Rightarrow> state" where
  "log_connection_ipv6 L level source st =
     (let address = (case inet_ntop (ntop6 L (sin6_addr source)) sizeof_sockaddr_in6 of
                       Some text \<Rightarrow> text | None \<Rightarrow> uninit L)
      in log_message level
           (''Connection from '' @ address @ '' on port '' @ string_of_int (uint (sin6_port source)))
           st)"

section \<open>The signal handler\<close>

definition signal_handler :: "int \<Rightarrow> state \<Rightarrow> state" where
  "signal_handler signum st =
     (log_message LOG_WARNING (''Caught signal '' @ string_of_int signum @ ''!'') st)
       \<lparr>global_running := False\<rparr>"

section \<open>Listener creation\<close>

text \<open>
  What the operating system answers to the calls of one \<^verbatim>\<open>create_server\<close>: the results
  of \<^verbatim>\<open>socket\<close>, \<^verbatim>\<open>setsockopt\<close>, \<^verbatim>\<open>bind\<close> and \<^verbatim>\<open>listen\<close>, and \<^verbatim>\<open>errno\<close> after
  \<^verbatim>\<open>setsockopt\<close>.
\<close>

record sock_os =
  os_socket :: int
  os_setsockopt :: int
  os_errno :: int
  os_bind :: int
  os_listen :: int

definition create_server :: "libc \<Rightarrow> sock_os \<Rightarrow> int \<Rightarrow> int \<Rightarrow> int \<Rightarrow> state \<Rightarrow> int \<times> state" where
  "create_server L os port family max_connections0 st =
     (if port \<le> 0 \<or> port > 65535 \<or> (family \<noteq> AF_INET \<and> family \<noteq> AF_INET6) then (- EINVAL, st)
      else
        let max_connections = (if max_connections0 \<le> 0 then 5 else max_connections0);
            conn = os_socket os;
            st1 = emit (EvSocket (if family = AF_UNSPEC then AF_INET else family) conn) st
        in if conn < 0 then (conn, st1)
           else
             let st2 = emit (EvSetsockopt conn (os_setsockopt os)) st1;
                 st3 = (if os_setsockopt os < 0
                        then log_message LOG_WARNING
                               (''Unable to make the address reusable; '' @ strerror L (os_errno os)) st2
                        else st2);
                 result = os_bind os;
                 st4 = emit (EvBind conn (if global_family st3 = AF_INET6 then AF_INET6 else AF_INET)
                               (word_of_int port) result) st3
             in if result < 0 then (result, emit (EvClose conn) st4)
                else
                  let result' = os_listen os;
                      st5 = emit (EvListen conn max_connections result') st4
                  in if result' < 0 then (result', emit (EvClose conn) st5)
                     else (conn, st5))"

text \<open>
  The sockets that are open after a list of events: \<^verbatim>\<open>socket\<close> and \<^verbatim>\<open>accept\<close> open
  the descriptor they return, \<^verbatim>\<open>close\<close> closes its argument. A descriptor that is
  open is never handed out again, so opening is written as adding where absent.
\<close>

fun open_after :: "int list \<Rightarrow> event list \<Rightarrow> int list" where
  "open_after fds [] = fds"
| "open_after fds (EvSocket f r # es) =
     open_after (if 0 \<le> r \<and> r \<notin> set fds then fds @ [r] else fds) es"
| "open_after fds (EvAccept l r # es) =
     open_after (if 0 \<le> r \<and> r \<notin> set fds then fds @ [r] else fds) es"
| "open_after fds (EvClose c # es) = open_after (removeAll c fds) es"
| "open_after fds (e # es) = open_after fds es"

definition open_sockets :: "state \<Rightarrow> int list" where
  "open_sockets st = open_after [] (trace st)"

text \<open>The backlog arguments of the \<^verbatim>\<open>listen\<close> calls among some events.\<close>

fun backlogs :: "event list \<Rightarrow> int list" where
  "backlogs [] = []"
| "backlogs (EvListen c b r # es) = b # backlogs es"
| "backlogs (e # es) = backlogs es"

section \<open>Command line\<close>

text \<open>
  What \<^verbatim>\<open>getopt\<close> yields for \<^verbatim>\<open>"p:l:46"\<close>, one value per option met: \<open>Opt_p n\<close>
  carries \<^verbatim>\<open>atoi(optarg)\<close>, \<open>Opt_other\<close> is any other return value (\<^verbatim>\<open>'?'\<close>).
\<close>

datatype opt = Opt_p int | Opt_l string | Opt_4 | Opt_6 | Opt_other

definition nl :: string where
  "nl = [CHR 0x0A]"

definition parse_help :: "string \<Rightarrow> state \<Rightarrow> state" where
  "parse_help argv0 st =
     emit (EvWrite (Some Stderr)
       (''-p number     Listen on the specified port; this option may appear multiple times.'' @ nl @
        ''-l log_file   Path to the log file; if omitted, the log will be output to '' @ [CHR 0x27] @ ''stderr'' @ [CHR 0x27] @ ''.'' @ nl @
        ''-4            Listen for IPv4 connections (any address); this is the default.'' @ nl @
        ''-6            Listen for IPv6 connections (any address).'' @ nl))
      (emit (EvWrite (Some Stderr)
         (''Usage: '' @ argv0 @ '' -p port1 [ -p port2 ... ] [ -l log_file ] [ -4 | -6 ]'' @ nl @ nl))
       st)"

fun parse_options :: "string \<Rightarrow> opt list \<Rightarrow> state \<Rightarrow> bool \<times> state" where
  "parse_options argv0 [] st =
     (if global_port_count st = 0
      then (False, emit (EvWrite (Some Stderr) (argv0 @ '': missing port number'' @ nl)) st)
      else (True, st))"
| "parse_options argv0 (Opt_p n # os) st =
     (if global_port_count st \<ge> MAX_PORTS
      then (False, emit (EvWrite (Some Stderr)
              (argv0 @ '': too many ports; you must specify at most '' @
               string_of_int (int MAX_PORTS) @ '' ports'' @ nl)) st)
      else parse_options argv0 os
             (st\<lparr>global_ports := (global_ports st)[global_port_count st := n],
                 global_port_count := Suc (global_port_count st)\<rparr>))"
| "parse_options argv0 (Opt_l path # os) st =
     parse_options argv0 os (st\<lparr>global_log_file := Some path\<rparr>)"
| "parse_options argv0 (Opt_4 # os) st = parse_options argv0 os (st\<lparr>global_family := AF_INET\<rparr>)"
| "parse_options argv0 (Opt_6 # os) st = parse_options argv0 os (st\<lparr>global_family := AF_INET6\<rparr>)"
| "parse_options argv0 (Opt_other # os) st = (False, parse_help argv0 st)"

section \<open>The event loop\<close>

text \<open>
  The signals \<^verbatim>\<open>main\<close> installs \<^verbatim>\<open>signal_handler\<close> for, with \<^verbatim>\<open>sigaction\<close>, right
  before the loop. A signal that arrives runs the handler on the state as it is at
  that moment.
\<close>

datatype termsig = Sig_TERM | Sig_ABRT | Sig_INT

fun sig_number :: "termsig \<Rightarrow> int" where
  "sig_number Sig_TERM = SIGTERM"
| "sig_number Sig_ABRT = SIGABRT"
| "sig_number Sig_INT = SIGINT"

definition deliver :: "termsig list \<Rightarrow> state \<Rightarrow> state" where
  "deliver sigs st = fold (\<lambda>s. signal_handler (sig_number s)) sigs st"

text \<open>
  What the outside does during one turn of the \<^verbatim>\<open>while\<close> loop (one wake):
  \<^item> \<open>w_signals\<close>: the signals that arrive between the loop test and the return of
    \<^verbatim>\<open>poll\<close>;
  \<^item> \<open>w_poll\<close>: \<^verbatim>\<open>poll\<close> fails with an \<^verbatim>\<open>errno\<close>, or writes the given
    \<^verbatim>\<open>revents\<close> into the entries it was given (zero where the list is short) and
    returns how many of them are not zero;
  \<^item> \<open>w_pre p\<close>: the signals that arrive while entry \<open>p\<close> is serviced, before its
    \<^verbatim>\<open>accept\<close>;
  \<^item> \<open>w_accept p\<close>: what \<^verbatim>\<open>accept\<close> on entry \<open>p\<close> returns, \<^verbatim>\<open>errno\<close>, and the peer
    address it stores.
\<close>

datatype poll_os = PollFail int | PollReady "16 word list"

record accept_os =
  acc_result :: int
  acc_errno :: int
  acc_peer :: sockaddr

record wake =
  w_signals :: "termsig list"
  w_poll :: poll_os
  w_pre :: "nat \<Rightarrow> termsig list"
  w_accept :: "nat \<Rightarrow> accept_os"

text \<open>
  Ways in which a run leaves what the C text defines, or never comes back:
  the outside has nothing more to offer and \<^verbatim>\<open>poll\<close> blocks for ever; an index
  past the end of \<^verbatim>\<open>wait_list\<close> or \<^verbatim>\<open>global_ports\<close>; a peer address of the
  other family than the one the cast in \<^verbatim>\<open>main\<close> reads.
\<close>

datatype fault = PollBlocksForever | ArrayOverrun | PeerFamilyMismatch

fun poll_write :: "16 word list \<Rightarrow> nat \<Rightarrow> pollfd list \<Rightarrow> pollfd list" where
  "poll_write rs 0 wl = wl"
| "poll_write rs (Suc n) [] = []"
| "poll_write [] (Suc n) (e # wl) = e\<lparr>revents := 0\<rparr> # poll_write [] n wl"
| "poll_write (r # rs) (Suc n) (e # wl) = e\<lparr>revents := r\<rparr> # poll_write rs n wl"

definition poll_count :: "nat \<Rightarrow> pollfd list \<Rightarrow> int" where
  "poll_count nfds wl = int (length (filter (\<lambda>e. revents e \<noteq> 0) (take nfds wl)))"

text \<open>
  The body of the \<^verbatim>\<open>for\<close> loop from \<^verbatim>\<open>wait_list[p].revents = 0\<close> on, for an
  entry that has \<^verbatim>\<open>POLLIN\<close>: \<open>Continue\<close> goes on with the next entry, \<open>Break\<close> is
  the \<^verbatim>\<open>break\<close> after a failed \<^verbatim>\<open>accept\<close>.
\<close>

datatype ctl = Continue state | Break state | Crash fault

definition accept_one :: "libc \<Rightarrow> wake \<Rightarrow> nat \<Rightarrow> state \<Rightarrow> ctl" where
  "accept_one L w p st =
     (let st1 = st\<lparr>wait_list := (wait_list st)[p := (wait_list st ! p)\<lparr>revents := 0\<rparr>]\<rparr>;
          st2 = deliver (w_pre w p) st1;
          client = acc_result (w_accept w p);
          st3 = emit (EvAccept (fd (wait_list st2 ! p)) client) st2
      in if client < 0
         then Break (log_error L ''Error accepting connection'' (acc_errno (w_accept w p)) st3)
         else if global_family st3 = AF_INET6
         then (case acc_peer (w_accept w p) of
                 Sockaddr_in6 a \<Rightarrow> Continue (emit (EvClose client) (log_connection_ipv6 L LOG_INFO a st3))
               | Sockaddr_in a \<Rightarrow> Crash PeerFamilyMismatch)
         else (case acc_peer (w_accept w p) of
                 Sockaddr_in a \<Rightarrow> Continue (emit (EvClose client) (log_connection_ipv4 L LOG_INFO a st3))
               | Sockaddr_in6 a \<Rightarrow> Crash PeerFamilyMismatch))"

lemma count_emit [simp]: "global_port_count (emit e st) = global_port_count st"
  by (simp add: emit_def)

lemma count_log_message [simp]: "global_port_count (log_message level msg st) = global_port_count st"
  by (simp add: log_message_def)

lemma count_signal_handler [simp]: "global_port_count (signal_handler n st) = global_port_count st"
  by (simp add: signal_handler_def)

lemma count_deliver [simp]: "global_port_count (deliver sigs st) = global_port_count st"
  unfolding deliver_def by (induction sigs arbitrary: st) simp_all

lemma count_accept_one:
  "accept_one L w p st = Continue st' \<Longrightarrow> global_port_count st' = global_port_count st"
  by (auto simp add: accept_one_def Let_def log_error_def log_connection_ipv4_def
        log_connection_ipv6_def split: if_splits sockaddr.splits)

text \<open>
  The \<^verbatim>\<open>for\<close> loop of one wake, from index \<open>p\<close> with \<open>events\<close> still to find.
  Its test is \<^verbatim>\<open>p <= global_port_count\<close>, so it reads one entry more than
  \<^verbatim>\<open>poll\<close> was given.
\<close>

function service :: "libc \<Rightarrow> wake \<Rightarrow> nat \<Rightarrow> int \<Rightarrow> state \<Rightarrow> fault + state" where
  "service L w p evs st =
     (if p \<le> global_port_count st \<and> 0 < evs then
        (if length (wait_list st) \<le> p then Inl ArrayOverrun
         else if revents (wait_list st ! p) AND POLLIN = 0 then service L w (Suc p) evs st
         else (case accept_one L w p st of
                 Continue st' \<Rightarrow> service L w (Suc p) (evs - 1) st'
               | Break st' \<Rightarrow> Inr st'
               | Crash f \<Rightarrow> Inl f))
      else Inr st)"
  by pat_completeness auto
termination
  by (relation "measure (\<lambda>(L, w, p, evs, st). Suc (global_port_count st) - p)")
     (auto dest: count_accept_one)

declare service.simps [simp del]

text \<open>
  One turn of the \<^verbatim>\<open>while\<close> loop: the signals of the wake, \<^verbatim>\<open>poll\<close>, and the
  \<^verbatim>\<open>for\<close> loop. \<open>Break\<close> is the \<^verbatim>\<open>break\<close> after a failed \<^verbatim>\<open>poll\<close>, which
  leaves the \<^verbatim>\<open>while\<close>; \<open>Continue\<close> goes back to the loop test (also after the
  \<^verbatim>\<open>break\<close> of the \<^verbatim>\<open>for\<close> loop, which leaves the \<^verbatim>\<open>for\<close> only).
\<close>

definition wake_step :: "libc \<Rightarrow> wake \<Rightarrow> state \<Rightarrow> ctl" where
  "wake_step L w st =
     (let st1 = deliver (w_signals w) st;
          nfds = global_port_count st1
      in case w_poll w of
           PollFail e \<Rightarrow>
             Break (log_error L ''Error waiting connection'' e (emit (EvPoll nfds (- 1)) st1))
         | PollReady rs \<Rightarrow>
             (let wl = poll_write rs nfds (wait_list st1);
                  evs = poll_count nfds wl;
                  st2 = emit (EvPoll nfds evs) (st1\<lparr>wait_list := wl\<rparr>)
              in case service L w 0 evs st2 of
                   Inl f \<Rightarrow> Crash f
                 | Inr st3 \<Rightarrow> Continue st3))"

text \<open>
  The \<^verbatim>\<open>while\<close> loop over the wakes the outside offers. The result is the state
  at the loop's exit.
\<close>

fun event_loop :: "libc \<Rightarrow> wake list \<Rightarrow> state \<Rightarrow> fault + state" where
  "event_loop L [] st = (if global_running st then Inl PollBlocksForever else Inr st)"
| "event_loop L (w # ws) st =
     (if global_running st then
        (case wake_step L w st of
           Continue st' \<Rightarrow> event_loop L ws st'
         | Break st' \<Rightarrow> Inr st'
         | Crash f \<Rightarrow> Inl f)
      else Inr st)"

text \<open>The closing loop after the \<^verbatim>\<open>while\<close>.\<close>

function close_listeners :: "nat \<Rightarrow> state \<Rightarrow> fault + state" where
  "close_listeners p st =
     (if p < global_port_count st then
        (if length (wait_list st) \<le> p then Inl ArrayOverrun
         else close_listeners (Suc p) (emit (EvClose (fd (wait_list st ! p))) st))
      else Inr st)"
  by pat_completeness auto
termination
  by (relation "measure (\<lambda>(p, st). global_port_count st - p)") auto

declare close_listeners.simps [simp del]

section \<open>The program\<close>

text \<open>
  The loop of \<^verbatim>\<open>main\<close> that creates the listeners: \<open>srv p\<close> is what the operating
  system answers to the calls of the \<open>p\<close>-th \<^verbatim>\<open>create_server\<close>. \<open>False\<close> is the
  \<^verbatim>\<open>return 1\<close> after a listener could not be created.
\<close>

lemma count_create_server [simp]:
  "global_port_count (snd (create_server L os port family b st)) = global_port_count st"
  by (simp add: create_server_def Let_def)

function setup_listeners :: "libc \<Rightarrow> (nat \<Rightarrow> sock_os) \<Rightarrow> nat \<Rightarrow> state \<Rightarrow> fault + bool \<times> state" where
  "setup_listeners L srv p st =
     (if p < global_port_count st then
        (if length (wait_list st) \<le> p \<or> length (global_ports st) \<le> p then Inl ArrayOverrun
         else
           let st1 = st\<lparr>wait_list := (wait_list st)[p := (wait_list st ! p)\<lparr>events := POLLIN\<rparr>]\<rparr>;
               r = fst (create_server L (srv p) (global_ports st1 ! p) (global_family st1) MAX_CONNECTIONS st1);
               st2 = snd (create_server L (srv p) (global_ports st1 ! p) (global_family st1) MAX_CONNECTIONS st1);
               st3 = st2\<lparr>wait_list := (wait_list st2)[p := (wait_list st2 ! p)\<lparr>fd := r\<rparr>]\<rparr>
           in if r < 0 then Inr (False, log_error L ''Unable to create socket server'' r st3)
              else setup_listeners L srv (Suc p)
                     (log_message LOG_INFO
                        (''Listening to any address on the port '' @ string_of_int (global_ports st3 ! p))
                        st3))
      else Inr (True, st))"
  by pat_completeness auto
termination
  by (relation "measure (\<lambda>(L, srv, p, st). global_port_count st - p)") auto

declare setup_listeners.simps [simp del]

text \<open>
  What the outside gives one run of the program: the program name, the options
  \<^verbatim>\<open>getopt\<close> finds, whether \<^verbatim>\<open>fopen\<close> of the log file fails (and with which
  \<^verbatim>\<open>errno\<close>), the answers to each \<^verbatim>\<open>create_server\<close>, and the wakes.
\<close>

record main_env =
  argv0 :: string
  getopt :: "opt list"
  fopen_errno :: "int option"
  servers :: "nat \<Rightarrow> sock_os"
  wakes :: "wake list"

text \<open>\<^verbatim>\<open>main\<close> from the opening of the log on; the result is the exit status and the
  final state.\<close>

definition open_log :: "libc \<Rightarrow> main_env \<Rightarrow> state \<Rightarrow> bool \<times> state" where
  "open_log L env st =
     (case global_log_file st of
        Some path \<Rightarrow>
          (case fopen_errno env of
             Some err \<Rightarrow>
               (False,
                log_error L ''IO error'' err
                  (log_message LOG_ERROR (''Unable to open log file '' @ [CHR 0x27] @ path @ [CHR 0x27])
                     (st\<lparr>global_log := Some Stderr\<rparr>)))
           | None \<Rightarrow> (True, st\<lparr>global_log := Some (LogFile path)\<rparr>))
      | None \<Rightarrow> (True, st\<lparr>global_log := Some Stderr\<rparr>))"

definition banner :: string where
  "banner = nl @ ''net-bouncer '' @ string_of_int 0 @ ''.'' @ string_of_int 1 @ ''.'' @
            string_of_int 0 @ nl"

text \<open>\<^verbatim>\<open>main\<close> from the \<^verbatim>\<open>while\<close> loop on: the loop, the closing of the listeners,
  \<^verbatim>\<open>return 0\<close>.\<close>

definition main_loop :: "libc \<Rightarrow> wake list \<Rightarrow> state \<Rightarrow> fault + int \<times> state" where
  "main_loop L ws st =
     (case event_loop L ws st of
        Inl f \<Rightarrow> Inl f
      | Inr st3 \<Rightarrow>
          (case close_listeners 0 st3 of
             Inl f \<Rightarrow> Inl f
           | Inr st4 \<Rightarrow> Inr (0, st4)))"

definition main :: "libc \<Rightarrow> main_env \<Rightarrow> fault + int \<times> state" where
  "main L env =
     (case parse_options (argv0 env) (getopt env) init_state of
        (False, st) \<Rightarrow> Inr (1, parse_help (argv0 env) st)
      | (True, st) \<Rightarrow>
          (case open_log L env st of
             (False, st1) \<Rightarrow> Inr (1, st1)
           | (True, st1) \<Rightarrow>
               (case setup_listeners L (servers env) 0 (emit (EvWrite (global_log st1) banner) st1) of
                  Inl f \<Rightarrow> Inl f
                | Inr (False, st2) \<Rightarrow> Inr (1, st2)
                | Inr (True, st2) \<Rightarrow> main_loop L (wakes env) st2)))"

text \<open>What can be seen of a run from outside: the exit status and the events.\<close>

definition observe :: "fault + int \<times> state \<Rightarrow> fault + int \<times> event list" where
  "observe r = (case r of Inl f \<Rightarrow> Inl f | Inr (c, st) \<Rightarrow> Inr (c, trace st))"

subsection \<open>A C library and operating-system answers for concrete runs\<close>

text \<open>
  Hexadecimal text of one 16-bit group without leading zeros, and the eight groups
  of an IPv6 address joined by colons. \<^verbatim>\<open>inet_ntop\<close> writes exactly this for an
  address none of whose groups is zero (it shortens runs of zero groups otherwise).
\<close>

definition hex_digit :: "nat \<Rightarrow> char" where
  "hex_digit d = ''0123456789abcdef'' ! d"

function hex_of_nat :: "nat \<Rightarrow> string" where
  "hex_of_nat n =
     (if n < 16 then [hex_digit n] else hex_of_nat (n div 16) @ [hex_digit (n mod 16)])"
  by pat_completeness auto
termination
  by (relation "measure id") auto

declare hex_of_nat.simps [simp del]

fun colon_hex :: "16 word list \<Rightarrow> string" where
  "colon_hex [] = []"
| "colon_hex [g] = hex_of_nat (unat g)"
| "colon_hex (g # gs) = hex_of_nat (unat g) @ '':'' @ colon_hex gs"

definition sample_strerror :: "int \<Rightarrow> string" where
  "sample_strerror e =
     (if e = 4 then ''Interrupted system call''
      else if e = 12 then ''Cannot allocate memory''
      else if e = 22 then ''Invalid argument''
      else if e = 24 then ''Too many open files''
      else if e = 98 then ''Address already in use''
      else ''Unknown error '' @ string_of_int e)"

definition sample_libc :: libc where
  "sample_libc = \<lparr>strerror = sample_strerror, ntop6 = colon_hex, uninit = []\<rparr>"

text \<open>Every call of \<^verbatim>\<open>create_server\<close> succeeds and \<^verbatim>\<open>socket\<close> returns \<open>c\<close>.\<close>

definition os_ok :: "int \<Rightarrow> sock_os" where
  "os_ok c = \<lparr>os_socket = c, os_setsockopt = 0, os_errno = 0, os_bind = 0, os_listen = 0\<rparr>"

text \<open>\<^verbatim>\<open>socket\<close> returns \<open>c\<close> and \<^verbatim>\<open>bind\<close> fails (the port is taken).\<close>

definition os_bind_fails :: "int \<Rightarrow> sock_os" where
  "os_bind_fails c = \<lparr>os_socket = c, os_setsockopt = 0, os_errno = 0, os_bind = - 1, os_listen = 0\<rparr>"

text \<open>Pieces of concrete runs: no signal while a listener is serviced; a connection
  from 127.0.0.1 accepted as descriptor \<open>client\<close>, with the given port field in the
  peer address; an \<^verbatim>\<open>accept\<close> that fails with the given \<^verbatim>\<open>errno\<close>; a wake in which
  a signal arrives during \<^verbatim>\<open>poll\<close>, which then fails with \<^verbatim>\<open>EINTR\<close>; a wake in
  which two listeners are ready and both connections are accepted.\<close>

definition quiet :: "nat \<Rightarrow> termsig list" where
  "quiet p = []"

definition from_localhost :: "int \<Rightarrow> 16 word \<Rightarrow> accept_os" where
  "from_localhost client port =
     \<lparr>acc_result = client, acc_errno = 0,
      acc_peer = Sockaddr_in \<lparr>sin_port = port, sin_addr = In_addr 127 0 0 1\<rparr>\<rparr>"

definition refused :: "int \<Rightarrow> accept_os" where
  "refused e = \<lparr>acc_result = - 1, acc_errno = e,
                 acc_peer = Sockaddr_in \<lparr>sin_port = 0, sin_addr = In_addr 0 0 0 0\<rparr>\<rparr>"

definition interrupted :: "termsig \<Rightarrow> wake" where
  "interrupted s =
     \<lparr>w_signals = [s], w_poll = PollFail EINTR, w_pre = quiet,
      w_accept = (\<lambda>p. from_localhost (- 1) 0)\<rparr>"

definition both_ready :: wake where
  "both_ready =
     \<lparr>w_signals = [], w_poll = PollReady [POLLIN, POLLIN], w_pre = quiet,
      w_accept = (\<lambda>p. from_localhost (5 + int p) 0x50C3)\<rparr>"

text \<open>A wake in which \<^verbatim>\<open>poll\<close> fails with \<^verbatim>\<open>ENOMEM\<close>; a wake in which two listeners
  are ready and \<^verbatim>\<open>accept\<close> on the first fails with \<^verbatim>\<open>EMFILE\<close>.\<close>

definition out_of_memory :: wake where
  "out_of_memory = \<lparr>w_signals = [], w_poll = PollFail 12, w_pre = quiet, w_accept = (\<lambda>p. refused 0)\<rparr>"

definition first_refused :: wake where
  "first_refused =
     \<lparr>w_signals = [], w_poll = PollReady [POLLIN, POLLIN], w_pre = quiet,
      w_accept = (\<lambda>p. if p = 0 then refused 24 else from_localhost 5 0x50C3)\<rparr>"

text \<open>Runs of the whole program: \<^verbatim>\<open>net-bouncer -p 22\<close> with one connection whose
  source port is 50000 (the bytes \<^verbatim>\<open>C3 50\<close> in the address, read as \<^verbatim>\<open>0x50C3\<close> on a
  little-endian machine) and then an interrupt; \<^verbatim>\<open>net-bouncer -p 22\<close> where
  \<^verbatim>\<open>poll\<close> fails with \<^verbatim>\<open>ENOMEM\<close>; \<^verbatim>\<open>net-bouncer -p 22 -p 23\<close> where both listeners are
  ready at once, \<^verbatim>\<open>accept\<close> on the first fails with \<^verbatim>\<open>EMFILE\<close>, and a terminate
  signal follows.\<close>

definition env_port22 :: main_env where
  "env_port22 =
     \<lparr>argv0 = ''net-bouncer'', getopt = [Opt_p 22], fopen_errno = None,
      servers = (\<lambda>p. os_ok 3),
      wakes = [\<lparr>w_signals = [], w_poll = PollReady [POLLIN], w_pre = quiet,
                w_accept = (\<lambda>p. from_localhost 4 0x50C3)\<rparr>,
               interrupted Sig_INT]\<rparr>"

definition env_poll_fails :: main_env where
  "env_poll_fails =
     \<lparr>argv0 = ''net-bouncer'', getopt = [Opt_p 22], fopen_errno = None,
      servers = (\<lambda>p. os_ok 3),
      wakes = [out_of_memory]\<rparr>"

definition env_accept_fails :: main_env where
  "env_accept_fails =
     \<lparr>argv0 = ''net-bouncer'', getopt = [Opt_p 22, Opt_p 23], fopen_errno = None,
      servers = (\<lambda>p. os_ok (3 + int p)),
      wakes = [first_refused, interrupted Sig_TERM]\<rparr>"

text \<open>The state of \<^verbatim>\<open>net-bouncer -p 22 -p 23\<close> when it enters the event loop.\<close>

definition listening2 :: state where
  "listening2 =
     init_state
       \<lparr>global_log := Some Stderr,
        global_ports := (replicate MAX_PORTS 0)[0 := 22, 1 := 23],
        global_port_count := 2,
        wait_list := (replicate MAX_PORTS zero_pollfd)
                       [0 := \<lparr>fd = 3, events = POLLIN, revents = 0\<rparr>,
                        1 := \<lparr>fd = 4, events = POLLIN, revents = 0\<rparr>],
        trace := [EvWrite (Some Stderr) banner,
                  EvSocket 2 3, EvSetsockopt 3 0, EvBind 3 2 22 0, EvListen 3 50 0,
                  EvWrite (Some Stderr) ''[INFO] Listening to any address on the port 22'',
                  EvSocket 2 4, EvSetsockopt 4 0, EvBind 4 2 23 0, EvListen 4 50 0,
                  EvWrite (Some Stderr) ''[INFO] Listening to any address on the port 23'']\<rparr>"

text \<open>Writes to a stream, as opposed to calls on sockets; and the \<^verbatim>\<open>close\<close> calls of
  the closing loop, one per listener in the order of the array.\<close>

fun is_write :: "event \<Rightarrow> bool" where
  "is_write (EvWrite h t) = True"
| "is_write e = False"

definition closing :: "state \<Rightarrow> event list" where
  "closing st = map EvClose (map fd (take (global_port_count st) (wait_list st)))"

text \<open>The state of \<^verbatim>\<open>net-bouncer -p 22 -p 23\<close> after the options are parsed, and
  after a \<^verbatim>\<open>poll\<close> that reports both listeners ready; and the run in which
  \<^verbatim>\<open>bind\<close> fails for the second port.\<close>

definition parsed2 :: state where
  "parsed2 = init_state\<lparr>global_ports := (replicate MAX_PORTS 0)[0 := 22, 1 := 23],
                        global_port_count := 2\<rparr>"

definition polled2 :: state where
  "polled2 = emit (EvPoll 2 2)
               (listening2\<lparr>wait_list := poll_write [POLLIN, POLLIN] 2 (wait_list listening2)\<rparr>)"

definition env_bind_fails :: main_env where
  "env_bind_fails =
     \<lparr>argv0 = ''net-bouncer'', getopt = [Opt_p 22, Opt_p 23], fopen_errno = None,
      servers = (\<lambda>p. if p = 0 then os_ok 3 else os_bind_fails 4),
      wakes = [both_ready]\<rparr>"

section \<open>Basic facts\<close>

lemma trace_emit [simp]: "trace (emit e st) = trace st @ [e]"
  by (simp add: emit_def)

lemma trace_log_message:
  "trace (log_message level msg st) =
     (if level_num level \<le> level_num (global_level st)
      then trace st @ [EvWrite (global_log st) (''['' @ LOG_LEVELS ! nat (level_num level) @ ''] '' @ msg)]
      else trace st)"
  by (cases level; cases "global_level st") (simp_all add: log_message_def)

lemma backlogs_append: "backlogs (xs @ ys) = backlogs xs @ backlogs ys"
  by (induction xs rule: backlogs.induct) simp_all

lemma open_after_append: "open_after fds (xs @ ys) = open_after (open_after fds xs) ys"
  by (induction fds xs rule: open_after.induct) simp_all

lemma family_log_message [simp]: "global_family (log_message level msg st) = global_family st"
  by (simp add: log_message_def emit_def)

section \<open>What the functions do, as equations on the state\<close>

text \<open>
  The events of one call of \<^verbatim>\<open>log_message\<close>: one write when the level passes the
  threshold, none otherwise. They depend on the state through \<^verbatim>\<open>global_level\<close> and
  \<^verbatim>\<open>global_log\<close> only.
\<close>

definition log_events :: "state \<Rightarrow> log_level \<Rightarrow> string \<Rightarrow> event list" where
  "log_events st level msg =
     (if level_num level \<le> level_num (global_level st)
      then [EvWrite (global_log st) (''['' @ LOG_LEVELS ! nat (level_num level) @ ''] '' @ msg)]
      else [])"

text \<open>The texts of the connection record and of the handler's warning.\<close>

definition conn_text :: "string \<Rightarrow> 16 word \<Rightarrow> string" where
  "conn_text address port = ''Connection from '' @ address @ '' on port '' @ string_of_int (uint port)"

definition caught_text :: "int \<Rightarrow> string" where
  "caught_text n = ''Caught signal '' @ string_of_int n @ ''!''"

definition signal_events :: "state \<Rightarrow> termsig list \<Rightarrow> event list" where
  "signal_events st sigs = concat (map (\<lambda>s. log_events st LOG_WARNING (caught_text (sig_number s))) sigs)"

lemma log_message_eq:
  "log_message level msg st = st\<lparr>trace := trace st @ log_events st level msg\<rparr>"
  by (cases level; cases "global_level st") (simp_all add: log_message_def log_events_def emit_def)

lemma log_error_eq:
  "log_error L m e st = st\<lparr>trace := trace st @ log_events st LOG_ERROR (m @ '': '' @ strerror L e)\<rparr>"
  by (simp add: log_error_def log_message_eq)

lemma signal_handler_eq:
  "signal_handler n st =
     st\<lparr>global_running := False, trace := trace st @ log_events st LOG_WARNING (caught_text n)\<rparr>"
  by (simp add: signal_handler_def log_message_eq caught_text_def)

lemma log_events_cong:
  "global_level st' = global_level st \<Longrightarrow> global_log st' = global_log st \<Longrightarrow>
   log_events st' = log_events st"
  by (simp add: log_events_def fun_eq_iff)

lemma log_events_upd [simp]:
  "log_events (st\<lparr>trace := t\<rparr>) = log_events st"
  "log_events (st\<lparr>global_running := b\<rparr>) = log_events st"
  "log_events (st\<lparr>wait_list := wl\<rparr>) = log_events st"
  by (simp_all add: log_events_def fun_eq_iff)

lemma deliver_eq:
  "deliver sigs st =
     st\<lparr>global_running := global_running st \<and> sigs = [],
        trace := trace st @ signal_events st sigs\<rparr>"
proof (induction sigs arbitrary: st)
  case Nil
  show ?case by (simp add: deliver_def signal_events_def)
next
  case (Cons s sigs)
  have "deliver (s # sigs) st = deliver sigs (signal_handler (sig_number s) st)"
    by (simp add: deliver_def)
  then show ?case
    by (simp add: Cons.IH signal_handler_eq signal_events_def)
qed


text \<open>
  The address text each of the two logging functions prints, the record for a peer
  address, and the peer addresses whose family is the one the cast in \<^verbatim>\<open>main\<close>
  reads.
\<close>

definition address4 :: "libc \<Rightarrow> sockaddr_in \<Rightarrow> string" where
  "address4 L a = (case inet_ntop (ntop4 (sin_addr a)) sizeof_sockaddr_in of
                     Some text \<Rightarrow> text | None \<Rightarrow> uninit L)"

definition address6 :: "libc \<Rightarrow> sockaddr_in6 \<Rightarrow> string" where
  "address6 L a = (case inet_ntop (ntop6 L (sin6_addr a)) sizeof_sockaddr_in6 of
                     Some text \<Rightarrow> text | None \<Rightarrow> uninit L)"

fun conn_line :: "libc \<Rightarrow> sockaddr \<Rightarrow> string" where
  "conn_line L (Sockaddr_in a) = conn_text (address4 L a) (sin_port a)"
| "conn_line L (Sockaddr_in6 a) = conn_text (address6 L a) (sin6_port a)"

fun peer_ok :: "int \<Rightarrow> sockaddr \<Rightarrow> bool" where
  "peer_ok family (Sockaddr_in a) = (family \<noteq> AF_INET6)"
| "peer_ok family (Sockaddr_in6 a) = (family = AF_INET6)"

text \<open>
  Servicing one ready listener \<open>p\<close>: the warnings of the signals that arrive first,
  the \<^verbatim>\<open>accept\<close>, and then either the error record, or the connection record and
  the \<^verbatim>\<open>close\<close> of the accepted connection. \<open>after_accept\<close> is the state afterwards.
\<close>

definition accept_events :: "libc \<Rightarrow> wake \<Rightarrow> state \<Rightarrow> nat \<Rightarrow> event list" where
  "accept_events L w st p =
     signal_events st (w_pre w p) @
     [EvAccept (fd (wait_list st ! p)) (acc_result (w_accept w p))] @
     (if acc_result (w_accept w p) < 0
      then log_events st LOG_ERROR
             (''Error accepting connection: '' @ strerror L (acc_errno (w_accept w p)))
      else log_events st LOG_INFO (conn_line L (acc_peer (w_accept w p))) @
           [EvClose (acc_result (w_accept w p))])"

definition after_accept :: "libc \<Rightarrow> wake \<Rightarrow> nat \<Rightarrow> state \<Rightarrow> state" where
  "after_accept L w p st =
     st\<lparr>global_running := global_running st \<and> w_pre w p = [],
        wait_list := (wait_list st)[p := (wait_list st ! p)\<lparr>revents := 0\<rparr>],
        trace := trace st @ accept_events L w st p\<rparr>"

lemma log_connection_ipv4_eq:
  "log_connection_ipv4 L level a st =
     st\<lparr>trace := trace st @ log_events st level (conn_line L (Sockaddr_in a))\<rparr>"
  by (simp add: log_connection_ipv4_def log_message_eq address4_def conn_text_def)

lemma log_connection_ipv6_eq:
  "log_connection_ipv6 L level a st =
     st\<lparr>trace := trace st @ log_events st level (conn_line L (Sockaddr_in6 a))\<rparr>"
  by (simp add: log_connection_ipv6_def log_message_eq address6_def conn_text_def)

lemma accept_one_eq:
  assumes "p < length (wait_list st)"
      and "peer_ok (global_family st) (acc_peer (w_accept w p))"
  shows "accept_one L w p st =
           (if acc_result (w_accept w p) < 0 then Break (after_accept L w p st)
            else Continue (after_accept L w p st))"
  using assms
  by (cases "acc_peer (w_accept w p)")
     (simp_all add: accept_one_def Let_def deliver_eq log_error_eq log_connection_ipv4_eq
        log_connection_ipv6_eq emit_def after_accept_def accept_events_def signal_events_def)


text \<open>
  The entries with \<^verbatim>\<open>POLLIN\<close> from index \<open>p\<close> on, in the order of the array (the
  order in which the listeners were registered).
\<close>

definition ready :: "state \<Rightarrow> nat \<Rightarrow> bool" where
  "ready st p = (revents (wait_list st ! p) AND POLLIN \<noteq> 0)"

definition ready_from :: "state \<Rightarrow> nat \<Rightarrow> nat list" where
  "ready_from st p = filter (ready st) [p..<global_port_count st]"

text \<open>
  Servicing a list of ready listeners one after the other, each completely before the
  next, and stopping at the first \<^verbatim>\<open>accept\<close> that fails.
\<close>

fun serve_events :: "libc \<Rightarrow> wake \<Rightarrow> state \<Rightarrow> nat list \<Rightarrow> event list" where
  "serve_events L w st [] = []"
| "serve_events L w st (p # ps) =
     accept_events L w st p @
     (if acc_result (w_accept w p) < 0 then [] else serve_events L w st ps)"

lemma after_accept_fields [simp]:
  "global_port_count (after_accept L w p st) = global_port_count st"
  "global_family (after_accept L w p st) = global_family st"
  "global_log (after_accept L w p st) = global_log st"
  "global_level (after_accept L w p st) = global_level st"
  "length (wait_list (after_accept L w p st)) = length (wait_list st)"
  "trace (after_accept L w p st) = trace st @ accept_events L w st p"
  by (simp_all add: after_accept_def)

lemma ready_after_accept:
  "q \<noteq> p \<Longrightarrow> ready (after_accept L w p st) q = ready st q"
  by (simp add: ready_def after_accept_def)

lemma fd_after_accept:
  "fd (wait_list (after_accept L w p st) ! q) = fd (wait_list st ! q)"
  by (cases "q = p"; cases "p < length (wait_list st)")
     (simp_all add: after_accept_def list_update_beyond)

lemma log_events_after_accept [simp]:
  "log_events (after_accept L w p st) = log_events st"
  by (rule log_events_cong) simp_all

lemma accept_events_after_accept:
  "accept_events L w (after_accept L w p st) q = accept_events L w st q"
  by (simp add: accept_events_def fd_after_accept signal_events_def)

lemma serve_events_after_accept:
  "serve_events L w (after_accept L w p st) qs = serve_events L w st qs"
  by (induction qs) (simp_all add: accept_events_after_accept)

lemma ready_from_after_accept:
  "p < q \<Longrightarrow> ready_from (after_accept L w p st) q = ready_from st q"
  unfolding ready_from_def
  by (rule filter_cong) (auto simp add: ready_after_accept)

lemma ready_from_step:
  "p < global_port_count st \<Longrightarrow>
   ready_from st p = (if ready st p then p # ready_from st (Suc p) else ready_from st (Suc p))"
  by (simp add: ready_from_def upt_conv_Cons)

lemma ready_from_end: "global_port_count st \<le> p \<Longrightarrow> ready_from st p = []"
  by (simp add: ready_from_def)

lemma service_trace:
  assumes "p \<le> Suc (global_port_count st)"
      and "global_port_count st \<le> length (wait_list st)"
      and "\<forall>q \<in> set (ready_from st p). peer_ok (global_family st) (acc_peer (w_accept w q))"
      and "int (length (ready_from st p)) \<le> evs"
      and "(global_port_count st < length (wait_list st) \<and> \<not> ready st (global_port_count st))
           \<or> evs = int (length (ready_from st p))"
  shows "\<exists>st'. service L w p evs st = Inr st'
           \<and> trace st' = trace st @ serve_events L w st (ready_from st p)"
  using assms
proof (induction "Suc (global_port_count st) - p" arbitrary: p evs st)
  case 0
  then have "p = Suc (global_port_count st)" by simp
  then show ?case
    by (subst service.simps) (simp add: ready_from_end)
next
  case (Suc n)
  then have ple: "p \<le> global_port_count st" by simp
  show ?case
  proof (cases "0 < evs")
    case False
    with Suc.prems(4) have "length (ready_from st p) = 0" by linarith
    then have "ready_from st p = []" by simp
    with False show ?thesis by (subst service.simps) simp
  next
    case True
    show ?thesis
    proof (cases "p = global_port_count st")
      case True
      then have rf: "ready_from st p = []" by (simp add: ready_from_end)
      with Suc.prems(5) \<open>0 < evs\<close>
      have lt: "global_port_count st < length (wait_list st)"
        and nr: "\<not> ready st (global_port_count st)" by auto
      have nxt: "service L w (Suc p) evs st = Inr st"
        using True by (subst service.simps) simp
      have "service L w p evs st = Inr st"
        using True lt nr \<open>0 < evs\<close> nxt by (subst service.simps) (simp add: ready_def)
      with rf show ?thesis by simp
    next
      case False
      with ple have plt: "p < global_port_count st" by simp
      with Suc.prems(2) have plen: "p < length (wait_list st)" by simp
      show ?thesis
      proof (cases "ready st p")
        case False
        then have rf: "ready_from st p = ready_from st (Suc p)"
          using plt by (simp add: ready_from_step)
        have "\<exists>st'. service L w (Suc p) evs st = Inr st'
                \<and> trace st' = trace st @ serve_events L w st (ready_from st (Suc p))"
          using Suc.hyps(2) Suc.prems plt rf
          by (intro Suc.hyps(1)) auto
        with False plt plen \<open>0 < evs\<close> rf show ?thesis
          by (simp add: service.simps [of L w p evs st] ready_def)
      next
        case True
        then have rf: "ready_from st p = p # ready_from st (Suc p)"
          using plt by (simp add: ready_from_step)
        with Suc.prems(3) have pk: "peer_ok (global_family st) (acc_peer (w_accept w p))"
          by simp
        note one = accept_one_eq [OF plen pk, of L]
        show ?thesis
        proof (cases "acc_result (w_accept w p) < 0")
          case True
          with one \<open>ready st p\<close> plt plen \<open>0 < evs\<close> rf show ?thesis
            by (simp add: service.simps [of L w p evs st] ready_def)
        next
          case False
          let ?st = "after_accept L w p st"
          have rf': "ready_from ?st (Suc p) = ready_from st (Suc p)"
            by (simp add: ready_from_after_accept)
          have nr: "ready ?st (global_port_count st) = ready st (global_port_count st)"
            using plt by (simp add: ready_after_accept)
          have "\<exists>st'. service L w (Suc p) (evs - 1) ?st = Inr st'
                  \<and> trace st' = trace ?st @ serve_events L w ?st (ready_from ?st (Suc p))"
          proof (rule Suc.hyps(1))
            show "n = Suc (global_port_count ?st) - Suc p" using Suc.hyps(2) by simp
            show "Suc p \<le> Suc (global_port_count ?st)" using plt by simp
            show "global_port_count ?st \<le> length (wait_list ?st)" using Suc.prems(2) by simp
            show "\<forall>q\<in>set (ready_from ?st (Suc p)).
                    peer_ok (global_family ?st) (acc_peer (w_accept w q))"
              using Suc.prems(3) rf rf' by simp
            show "int (length (ready_from ?st (Suc p))) \<le> evs - 1"
              using Suc.prems(4) rf rf' by simp
            show "global_port_count ?st < length (wait_list ?st) \<and> \<not> ready ?st (global_port_count ?st)
                  \<or> evs - 1 = int (length (ready_from ?st (Suc p)))"
              using Suc.prems(5) rf rf' nr by auto
          qed
          with one False \<open>ready st p\<close> plt plen \<open>0 < evs\<close> rf rf' show ?thesis
            by (simp add: service.simps [of L w p evs st] ready_def serve_events_after_accept)
        qed
      qed
    qed
  qed
qed


lemma length_poll_write [simp]: "length (poll_write rs n wl) = length wl"
  by (induction rs n wl rule: poll_write.induct) simp_all

lemma nth_poll_write:
  "p < length wl \<Longrightarrow>
   poll_write rs n wl ! p =
     (if p < n then (wl ! p)\<lparr>revents := (if p < length rs then rs ! p else 0)\<rparr> else wl ! p)"
proof (induction rs n wl arbitrary: p rule: poll_write.induct)
  case (1 rs wl)
  then show ?case by simp
next
  case (2 rs n)
  then show ?case by simp
next
  case (3 n e wl)
  then show ?case by (cases p) simp_all
next
  case (4 r rs n e wl)
  then show ?case by (cases p) simp_all
qed

text \<open>
  Among the first \<open>n\<close> entries, those for which \<^verbatim>\<open>poll\<close> reports \<^verbatim>\<open>POLLIN\<close>, and those
  for which it reports anything at all (these are the ones its return value counts).
\<close>

definition reported :: "16 word list \<Rightarrow> nat \<Rightarrow> nat list" where
  "reported rs n = filter (\<lambda>p. p < length rs \<and> rs ! p AND POLLIN \<noteq> 0) [0..<n]"

definition nonzero :: "16 word list \<Rightarrow> nat \<Rightarrow> nat list" where
  "nonzero rs n = filter (\<lambda>p. p < length rs \<and> rs ! p \<noteq> 0) [0..<n]"

lemma take_conv_map_nth: "n \<le> length xs \<Longrightarrow> take n xs = map (\<lambda>p. xs ! p) [0..<n]"
  by (rule nth_equalityI) simp_all

lemma poll_count_poll_write:
  assumes "n \<le> length wl"
  shows "poll_count n (poll_write rs n wl) = int (length (nonzero rs n))"
proof -
  have "take n (poll_write rs n wl) = map (\<lambda>p. poll_write rs n wl ! p) [0..<n]"
    using assms by (simp add: take_conv_map_nth)
  then have "filter (\<lambda>e. revents e \<noteq> 0) (take n (poll_write rs n wl)) =
        map (\<lambda>p. poll_write rs n wl ! p) (filter (\<lambda>p. revents (poll_write rs n wl ! p) \<noteq> 0) [0..<n])"
    by (simp add: filter_map comp_def)
  moreover have "filter (\<lambda>p. revents (poll_write rs n wl ! p) \<noteq> 0) [0..<n] = nonzero rs n"
    unfolding nonzero_def using assms by (intro filter_cong) (auto simp add: nth_poll_write)
  ultimately show ?thesis by (simp add: poll_count_def)
qed

lemma filter_length_mono:
  "(\<And>x. x \<in> set xs \<Longrightarrow> P x \<Longrightarrow> Q x) \<Longrightarrow> length (filter P xs) \<le> length (filter Q xs)"
  by (induction xs) auto

lemma reported_le_nonzero: "length (reported rs n) \<le> length (nonzero rs n)"
  unfolding reported_def nonzero_def by (rule filter_length_mono) auto

lemma accept_events_cong:
  "log_events st' = log_events st \<Longrightarrow> fd (wait_list st' ! p) = fd (wait_list st ! p) \<Longrightarrow>
   accept_events L w st' p = accept_events L w st p"
  unfolding accept_events_def signal_events_def by simp

lemma serve_events_cong:
  "log_events st' = log_events st \<Longrightarrow>
   (\<And>p. p \<in> set ps \<Longrightarrow> fd (wait_list st' ! p) = fd (wait_list st ! p)) \<Longrightarrow>
   serve_events L w st' ps = serve_events L w st ps"
proof (induction ps)
  case Nil
  show ?case by simp
next
  case (Cons p ps)
  have "accept_events L w st' p = accept_events L w st p"
    by (rule accept_events_cong) (simp_all add: Cons.prems)
  moreover have "serve_events L w st' ps = serve_events L w st ps"
    by (rule Cons.IH) (simp_all add: Cons.prems)
  ultimately show ?case by simp
qed

lemma signal_events_cong:
  "log_events st' = log_events st \<Longrightarrow> signal_events st' = signal_events st"
  unfolding signal_events_def by (rule ext) simp

lemma wake_step_trace:
  assumes poll: "w_poll w = PollReady rs"
      and bound: "global_port_count st \<le> length (wait_list st)"
      and peers: "\<forall>p \<in> set (reported rs (global_port_count st)).
                    peer_ok (global_family st) (acc_peer (w_accept w p))"
      and extra: "(global_port_count st < length (wait_list st)
                    \<and> revents (wait_list st ! global_port_count st) AND POLLIN = 0)
                  \<or> nonzero rs (global_port_count st) = reported rs (global_port_count st)"
  shows "\<exists>st'. wake_step L w st = Continue st'
           \<and> trace st' = trace st @ signal_events st (w_signals w)
                 @ [EvPoll (global_port_count st) (int (length (nonzero rs (global_port_count st))))]
                 @ serve_events L w st (reported rs (global_port_count st))"
proof -
  define n where "n = global_port_count st"
  define st1 where "st1 = deliver (w_signals w) st"
  define wl where "wl = poll_write rs n (wait_list st1)"
  define evs where "evs = poll_count n wl"
  define st2 where "st2 = emit (EvPoll n evs) (st1\<lparr>wait_list := wl\<rparr>)"
  have n1: "global_port_count st1 = n" by (simp add: st1_def n_def deliver_eq)
  have wl1: "wait_list st1 = wait_list st" by (simp add: st1_def deliver_eq)
  have bound': "n \<le> length (wait_list st)" using bound by (simp add: n_def)
  have evs: "evs = int (length (nonzero rs n))"
    using bound' by (simp add: evs_def wl_def wl1 poll_count_poll_write)
  have n2: "global_port_count st2 = n" by (simp add: st2_def emit_def n1)
  have wl2: "wait_list st2 = poll_write rs n (wait_list st)"
    by (simp add: st2_def emit_def wl_def wl1)
  have fam2: "global_family st2 = global_family st"
    by (simp add: st2_def st1_def deliver_eq emit_def)
  have le2: "log_events st2 = log_events st"
    by (rule log_events_cong) (simp_all add: st2_def st1_def deliver_eq emit_def)
  have tr2: "trace st2 = trace st @ signal_events st (w_signals w) @ [EvPoll n evs]"
    by (simp add: st2_def st1_def deliver_eq emit_def)
  have rdy: "ready st2 p = (p < length rs \<and> rs ! p AND POLLIN \<noteq> 0)" if "p < n" for p
    using that bound' by (simp add: ready_def wl2 nth_poll_write)
  have rf: "ready_from st2 0 = reported rs n"
    unfolding ready_from_def reported_def n2
    by (rule filter_cong) (auto simp add: rdy)
  have last_entry: "ready st2 n = (revents (wait_list st ! n) AND POLLIN \<noteq> 0)"
    if "n < length (wait_list st)"
    using that by (simp add: ready_def wl2 nth_poll_write)
  have "\<exists>st'. service L w 0 evs st2 = Inr st'
          \<and> trace st' = trace st2 @ serve_events L w st2 (ready_from st2 0)"
  proof (rule service_trace)
    show "0 \<le> Suc (global_port_count st2)" by simp
    show "global_port_count st2 \<le> length (wait_list st2)"
      using bound' by (simp add: n2 wl2)
    show "\<forall>q\<in>set (ready_from st2 0). peer_ok (global_family st2) (acc_peer (w_accept w q))"
      using peers by (simp add: rf fam2 n_def)
    show "int (length (ready_from st2 0)) \<le> evs"
      using reported_le_nonzero [of rs n] by (simp add: rf evs)
    show "global_port_count st2 < length (wait_list st2) \<and> \<not> ready st2 (global_port_count st2)
          \<or> evs = int (length (ready_from st2 0))"
      using extra last_entry by (auto simp add: n2 rf evs wl2 n_def)
  qed
  then obtain st' where run: "service L w 0 evs st2 = Inr st'"
    and tr: "trace st' = trace st2 @ serve_events L w st2 (ready_from st2 0)" by blast
  have se: "serve_events L w st2 (reported rs n) = serve_events L w st (reported rs n)"
  proof (rule serve_events_cong [OF le2])
    fix p assume "p \<in> set (reported rs n)"
    then have "p < n" by (simp add: reported_def)
    with bound' show "fd (wait_list st2 ! p) = fd (wait_list st ! p)"
      by (simp add: wl2 nth_poll_write)
  qed
  have "wake_step L w st = Continue st'"
    using run poll
    by (simp add: wake_step_def Let_def st2_def evs_def wl_def st1_def n1 [unfolded st1_def] n_def)
  moreover have "trace st' = trace st @ signal_events st (w_signals w)
                 @ [EvPoll n (int (length (nonzero rs n)))]
                 @ serve_events L w st (reported rs n)"
    using tr by (simp add: tr2 rf se evs)
  ultimately show ?thesis by (simp add: n_def)
qed

section \<open>Invariants of the arrays and of the configuration\<close>

text \<open>
  The arrays have \<^verbatim>\<open>MAX_PORTS\<close> elements, the port count is within them, and the
  entries of \<^verbatim>\<open>wait_list\<close> from the port count on have \<^verbatim>\<open>revents\<close> zero (nothing
  writes them after the \<^verbatim>\<open>memset\<close>).
\<close>

definition wf_state :: "state \<Rightarrow> bool" where
  "wf_state st =
     (length (wait_list st) = MAX_PORTS \<and> length (global_ports st) = MAX_PORTS
      \<and> global_port_count st \<le> MAX_PORTS
      \<and> list_all (\<lambda>e. revents e = 0) (drop (global_port_count st) (wait_list st)))"

text \<open>
  \<open>later st st'\<close>: between the two states the configuration and the descriptors of
  the listeners did not change, and the running flag did not go from false to true.
\<close>

definition later :: "state \<Rightarrow> state \<Rightarrow> bool" where
  "later st st' =
     (global_port_count st' = global_port_count st \<and> global_ports st' = global_ports st
      \<and> global_family st' = global_family st \<and> global_log st' = global_log st
      \<and> global_level st' = global_level st \<and> global_log_file st' = global_log_file st
      \<and> map fd (wait_list st') = map fd (wait_list st)
      \<and> global_running st' \<le> global_running st)"

lemma later_refl [simp]: "later st st"
  by (simp add: later_def)

lemma later_trans: "later a b \<Longrightarrow> later b c \<Longrightarrow> later a c"
  by (auto simp add: later_def)

lemma wf_state_bound: "wf_state st \<Longrightarrow> global_port_count st \<le> length (wait_list st)"
  by (simp add: wf_state_def)

lemma wf_state_last:
  assumes "wf_state st" "global_port_count st < length (wait_list st)"
  shows "revents (wait_list st ! global_port_count st) = 0"
proof -
  have "wait_list st ! global_port_count st \<in> set (drop (global_port_count st) (wait_list st))"
    using assms(2) by (metis Cons_nth_drop_Suc list.set_intros(1))
  with assms(1) show ?thesis by (simp add: wf_state_def list_all_iff)
qed

lemma map_fd_update_revents:
  "map fd (wl[p := (wl ! p)\<lparr>revents := r\<rparr>]) = map fd wl"
  by (cases "p < length wl") (simp_all add: map_update list_update_beyond list_update_same_conv)

lemma accept_one_later:
  "accept_one L w p st = Continue st' \<or> accept_one L w p st = Break st' \<Longrightarrow> later st st'"
  by (auto simp add: accept_one_def Let_def deliver_eq log_error_eq log_connection_ipv4_eq
        log_connection_ipv6_eq emit_def later_def map_fd_update_revents
        split: if_splits sockaddr.splits)

lemma accept_one_wf:
  assumes "wf_state st" "p < global_port_count st"
      and "accept_one L w p st = Continue st' \<or> accept_one L w p st = Break st'"
  shows "wf_state st'"
  using assms
  by (auto simp add: accept_one_def Let_def deliver_eq log_error_eq log_connection_ipv4_eq
        log_connection_ipv6_eq emit_def wf_state_def
        split: if_splits sockaddr.splits)

lemma service_later_wf:
  "wf_state st \<Longrightarrow> service L w p evs st = Inr st' \<Longrightarrow> later st st' \<and> wf_state st'"
proof (induction L w p evs st rule: service.induct)
  case (1 L w p evs st)
  show ?case
  proof (cases "p \<le> global_port_count st \<and> 0 < evs")
    case False
    with "1.prems" show ?thesis by (subst (asm) service.simps) auto
  next
    case go: True
    show ?thesis
    proof (cases "length (wait_list st) \<le> p")
      case True
      with go "1.prems" show ?thesis by (subst (asm) service.simps) simp
    next
      case inb: False
      show ?thesis
      proof (cases "revents (wait_list st ! p) AND POLLIN = 0")
        case True
        with go inb "1.prems" have "service L w (Suc p) evs st = Inr st'"
          by (subst (asm) service.simps) simp
        with "1.IH"(1) [OF go inb True] "1.prems"(1) show ?thesis by simp
      next
        case rdy: False
        have plt: "p < global_port_count st"
        proof (rule ccontr)
          assume "\<not> p < global_port_count st"
          with go have "p = global_port_count st" by simp
          with inb "1.prems"(1) have "revents (wait_list st ! p) = 0"
            by (simp add: wf_state_last)
          with rdy show False by simp
        qed
        show ?thesis
        proof (cases "accept_one L w p st")
          case (Continue st1)
          with go inb rdy "1.prems" have run: "service L w (Suc p) (evs - 1) st1 = Inr st'"
            by (subst (asm) service.simps) simp
          have l1: "later st st1" using Continue by (blast intro: accept_one_later)
          have w1: "wf_state st1" using Continue "1.prems"(1) plt by (blast intro: accept_one_wf)
          from "1.IH"(2) [OF go inb rdy Continue w1 run] l1 show ?thesis
            by (auto intro: later_trans)
        next
          case (Break st1)
          with go inb rdy "1.prems" have "st' = st1"
            by (subst (asm) service.simps) simp
          with Break "1.prems"(1) plt show ?thesis
            by (blast intro: accept_one_later accept_one_wf)
        next
          case (Crash f)
          with go inb rdy "1.prems" show ?thesis
            by (subst (asm) service.simps) simp
        qed
      qed
    qed
  qed
qed


lemma map_fd_poll_write [simp]: "map fd (poll_write rs n wl) = map fd wl"
  by (induction rs n wl rule: poll_write.induct) simp_all

lemma drop_poll_write [simp]: "drop n (poll_write rs n wl) = drop n wl"
  by (induction rs n wl rule: poll_write.induct) simp_all

lemma deliver_later_wf: "later st (deliver sigs st)" "wf_state (deliver sigs st) = wf_state st"
  by (simp_all add: deliver_eq later_def wf_state_def)

lemma wake_step_later_wf:
  assumes "wf_state st"
      and "wake_step L w st = Continue st' \<or> wake_step L w st = Break st'"
  shows "later st st' \<and> wf_state st' \<and> global_running st' \<le> (w_signals w = [])"
proof (cases "w_poll w")
  case (PollFail e)
  with assms show ?thesis
    by (auto simp add: wake_step_def Let_def deliver_eq log_error_eq emit_def later_def wf_state_def)
next
  case (PollReady rs)
  define st1 where "st1 = deliver (w_signals w) st"
  define wl where "wl = poll_write rs (global_port_count st1) (wait_list st1)"
  define st2 where "st2 = emit (EvPoll (global_port_count st1) (poll_count (global_port_count st1) wl))
                            (st1\<lparr>wait_list := wl\<rparr>)"
  have l2: "later st st2"
    by (simp add: st2_def wl_def st1_def deliver_eq emit_def later_def)
  have w2: "wf_state st2"
    using assms(1) by (simp add: st2_def wl_def st1_def deliver_eq emit_def wf_state_def)
  have r2: "global_running st2 \<le> (w_signals w = [])"
    by (simp add: st2_def st1_def deliver_eq emit_def)
  from assms(2) PollReady
  have run: "service L w 0 (poll_count (global_port_count st1) wl) st2 = Inr st'"
    by (auto simp add: wake_step_def Let_def st2_def wl_def st1_def split: sum.splits)
  from service_later_wf [OF w2 run] have l3: "later st2 st'" and w3: "wf_state st'" by simp_all
  from l3 r2 have "global_running st' \<le> (w_signals w = [])"
    by (auto simp add: later_def)
  with l2 l3 w3 show ?thesis by (blast intro: later_trans)
qed

lemma event_loop_later_wf:
  "wf_state st \<Longrightarrow> event_loop L ws st = Inr st' \<Longrightarrow> later st st' \<and> wf_state st'"
proof (induction ws arbitrary: st)
  case Nil
  then show ?case by (simp split: if_splits)
next
  case (Cons w ws)
  show ?case
  proof (cases "global_running st")
    case False
    with Cons.prems show ?thesis by simp
  next
    case True
    show ?thesis
    proof (cases "wake_step L w st")
      case (Continue st1)
      with True Cons.prems have run: "event_loop L ws st1 = Inr st'" by simp
      from wake_step_later_wf [OF Cons.prems(1), of L w st1] Continue
      have l1: "later st st1" and w1: "wf_state st1" by simp_all
      from Cons.IH [OF w1 run] l1 show ?thesis by (blast intro: later_trans)
    next
      case (Break st1)
      with True Cons.prems have "st' = st1" by simp
      with wake_step_later_wf [OF Cons.prems(1), of L w st1] Break show ?thesis by simp
    next
      case (Crash f)
      with True Cons.prems show ?thesis by simp
    qed
  qed
qed

lemma close_listeners_eq:
  assumes "global_port_count st \<le> length (wait_list st)"
  shows "close_listeners p st =
           Inr (st\<lparr>trace := trace st @
                  map EvClose (map fd (drop p (take (global_port_count st) (wait_list st))))\<rparr>)"
  using assms
proof (induction "global_port_count st - p" arbitrary: p st)
  case 0
  then show ?case by (subst close_listeners.simps) simp
next
  case (Suc k)
  then have plt: "p < global_port_count st" by simp
  with Suc.prems have plen: "p < length (wait_list st)" by simp
  let ?st = "emit (EvClose (fd (wait_list st ! p))) st"
  have "close_listeners (Suc p) ?st =
          Inr (?st\<lparr>trace := trace ?st @
                 map EvClose (map fd (drop (Suc p) (take (global_port_count ?st) (wait_list ?st))))\<rparr>)"
    using Suc.hyps(2) Suc.prems by (intro Suc.hyps(1)) (simp_all add: emit_def)
  moreover have "drop p (take (global_port_count st) (wait_list st)) =
          wait_list st ! p # drop (Suc p) (take (global_port_count st) (wait_list st))"
    using plt plen by (simp add: Cons_nth_drop_Suc [symmetric])
  ultimately show ?case
    using plt plen by (subst close_listeners.simps) (simp add: emit_def)
qed


text \<open>The calls that only the event loop makes.\<close>

fun is_loop_event :: "event \<Rightarrow> bool" where
  "is_loop_event (EvPoll n r) = True"
| "is_loop_event (EvAccept l r) = True"
| "is_loop_event e = False"

lemma log_events_no_loop [simp]: "filter is_loop_event (log_events st level msg) = []"
  by (simp add: log_events_def)

lemma create_server_keeps [simp]:
  "wait_list (snd (create_server L os port family b st)) = wait_list st"
  "global_ports (snd (create_server L os port family b st)) = global_ports st"
  "global_family (snd (create_server L os port family b st)) = global_family st"
  "global_level (snd (create_server L os port family b st)) = global_level st"
  "global_log (snd (create_server L os port family b st)) = global_log st"
  "global_log_file (snd (create_server L os port family b st)) = global_log_file st"
  "global_running (snd (create_server L os port family b st)) = global_running st"
  by (simp_all add: create_server_def Let_def log_message_eq emit_def)

lemma create_server_no_loop [simp]:
  "filter is_loop_event (trace (snd (create_server L os port family b st))) =
   filter is_loop_event (trace st)"
  by (simp add: create_server_def Let_def log_message_eq emit_def)

text \<open>What \<^verbatim>\<open>create_server\<close> returns, which depends on its arguments and on the
  answers of the operating system only.\<close>

definition create_result :: "sock_os \<Rightarrow> int \<Rightarrow> int \<Rightarrow> int" where
  "create_result os port family =
     (if port \<le> 0 \<or> port > 65535 \<or> (family \<noteq> AF_INET \<and> family \<noteq> AF_INET6) then - EINVAL
      else if os_socket os < 0 then os_socket os
      else if os_bind os < 0 then os_bind os
      else if os_listen os < 0 then os_listen os
      else os_socket os)"

lemma fst_create_server:
  "fst (create_server L os port family b st) = create_result os port family"
  by (simp add: create_server_def create_result_def Let_def)

lemma init_state_wf: "wf_state init_state"
  by (simp add: wf_state_def init_state_def zero_pollfd_def list_all_iff)

lemma wf_state_grow:
  assumes "wf_state st" "global_port_count st < MAX_PORTS"
  shows "wf_state (st\<lparr>global_ports := (global_ports st)[global_port_count st := n],
                     global_port_count := Suc (global_port_count st)\<rparr>)"
proof -
  have "set (drop (Suc (global_port_count st)) (wait_list st))
          \<subseteq> set (drop (global_port_count st) (wait_list st))"
    by (rule set_drop_subset_set_drop) simp
  with assms show ?thesis
    by (auto simp add: wf_state_def list_all_iff)
qed

lemma wf_state_upd [simp]:
  "wf_state (st\<lparr>global_log_file := f\<rparr>) = wf_state st"
  "wf_state (st\<lparr>global_family := fam\<rparr>) = wf_state st"
  "wf_state (st\<lparr>global_log := h\<rparr>) = wf_state st"
  "wf_state (st\<lparr>global_running := r\<rparr>) = wf_state st"
  "wf_state (st\<lparr>trace := t\<rparr>) = wf_state st"
  by (simp_all add: wf_state_def)

lemma parse_options_keeps:
  "parse_options a os st = (ok, st') \<Longrightarrow> wf_state st \<Longrightarrow>
     wf_state st' \<and> global_level st' = global_level st \<and> global_running st' = global_running st
     \<and> global_log st' = global_log st \<and> wait_list st' = wait_list st
     \<and> filter is_loop_event (trace st') = filter is_loop_event (trace st)"
proof (induction a os st rule: parse_options.induct)
  case (1 argv0 st)
  then show ?case by (auto simp add: emit_def split: if_splits)
next
  case (2 argv0 n os st)
  show ?case
  proof (cases "MAX_PORTS \<le> global_port_count st")
    case True
    with 2 show ?thesis by (auto simp add: emit_def)
  next
    case False
    then have lt: "global_port_count st < MAX_PORTS" by simp
    from "2.prems" False have run: "parse_options argv0 os
             (st\<lparr>global_ports := (global_ports st)[global_port_count st := n],
                 global_port_count := Suc (global_port_count st)\<rparr>) = (ok, st')" by simp
    from "2.IH" [OF False run wf_state_grow [OF "2.prems"(2) lt]] show ?thesis by simp
  qed
next
  case (3 argv0 path os st)
  from "3.prems" have run: "parse_options argv0 os (st\<lparr>global_log_file := Some path\<rparr>) = (ok, st')"
    by simp
  from "3.IH" [OF run] "3.prems"(2) show ?case by simp
next
  case (4 argv0 os st)
  from "4.prems" have run: "parse_options argv0 os (st\<lparr>global_family := AF_INET\<rparr>) = (ok, st')"
    by simp
  from "4.IH" [OF run] "4.prems"(2) show ?case by simp
next
  case (5 argv0 os st)
  from "5.prems" have run: "parse_options argv0 os (st\<lparr>global_family := AF_INET6\<rparr>) = (ok, st')"
    by simp
  from "5.IH" [OF run] "5.prems"(2) show ?case by simp
next
  case (6 argv0 os st)
  then show ?case by (auto simp add: parse_help_def emit_def)
qed

lemma open_log_keeps:
  "open_log L env st = (ok, st') \<Longrightarrow> wf_state st \<Longrightarrow>
     wf_state st' \<and> global_level st' = global_level st \<and> global_running st' = global_running st
     \<and> global_ports st' = global_ports st \<and> global_port_count st' = global_port_count st
     \<and> global_family st' = global_family st
     \<and> filter is_loop_event (trace st') = filter is_loop_event (trace st)"
  by (auto simp add: open_log_def log_error_eq log_message_eq split: option.splits)


lemma log_events_error:
  "log_events st LOG_ERROR m = [EvWrite (global_log st) (''[ERROR] '' @ m)]"
  by (cases "global_level st") (simp_all add: log_events_def LOG_LEVELS_def)

lemma wf_state_entry:
  assumes "wf_state st" "p < global_port_count st" "revents e = revents (wait_list st ! p)"
  shows "wf_state (st\<lparr>wait_list := (wait_list st)[p := e]\<rparr>)"
  using assms by (simp add: wf_state_def drop_update_cancel)

text \<open>The state after the body of the listener loop for index \<open>p\<close>, up to the test
  of the descriptor.\<close>

definition setup_one :: "libc \<Rightarrow> sock_os \<Rightarrow> nat \<Rightarrow> state \<Rightarrow> state" where
  "setup_one L os p st =
     (let st1 = st\<lparr>wait_list := (wait_list st)[p := (wait_list st ! p)\<lparr>events := POLLIN\<rparr>]\<rparr>;
          r = fst (create_server L os (global_ports st1 ! p) (global_family st1) MAX_CONNECTIONS st1);
          st2 = snd (create_server L os (global_ports st1 ! p) (global_family st1) MAX_CONNECTIONS st1)
      in st2\<lparr>wait_list := (wait_list st2)[p := (wait_list st2 ! p)\<lparr>fd := r\<rparr>]\<rparr>)"

lemma setup_listeners_unfold:
  "setup_listeners L srv p st =
     (if p < global_port_count st then
        (if length (wait_list st) \<le> p \<or> length (global_ports st) \<le> p then Inl ArrayOverrun
         else if create_result (srv p) (global_ports st ! p) (global_family st) < 0
         then Inr (False, log_error L ''Unable to create socket server''
                   (create_result (srv p) (global_ports st ! p) (global_family st))
                   (setup_one L (srv p) p st))
         else setup_listeners L srv (Suc p)
                (log_message LOG_INFO
                   (''Listening to any address on the port '' @ string_of_int (global_ports st ! p))
                   (setup_one L (srv p) p st)))
      else Inr (True, st))"
  by (subst setup_listeners.simps) (simp add: Let_def setup_one_def fst_create_server)

lemma setup_one_keeps:
  assumes "wf_state st" "p < global_port_count st"
  shows "wf_state (setup_one L os p st)"
    and "global_level (setup_one L os p st) = global_level st"
    and "global_running (setup_one L os p st) = global_running st"
    and "global_port_count (setup_one L os p st) = global_port_count st"
    and "global_ports (setup_one L os p st) = global_ports st"
    and "global_family (setup_one L os p st) = global_family st"
    and "global_log (setup_one L os p st) = global_log st"
    and "filter is_loop_event (trace (setup_one L os p st)) = filter is_loop_event (trace st)"
proof -
  let ?st1 = "st\<lparr>wait_list := (wait_list st)[p := (wait_list st ! p)\<lparr>events := POLLIN\<rparr>]\<rparr>"
  let ?cs = "create_server L os (global_ports ?st1 ! p) (global_family ?st1) MAX_CONNECTIONS ?st1"
  have pl: "p < length (wait_list st)" using assms by (simp add: wf_state_def)
  have w1: "wf_state ?st1" using assms by (intro wf_state_entry) simp_all
  have w2: "wf_state (snd ?cs)"
    using w1 by (simp add: wf_state_def)
  have "wf_state ((snd ?cs)\<lparr>wait_list := (wait_list (snd ?cs))[p := (wait_list (snd ?cs) ! p)\<lparr>fd := fst ?cs\<rparr>]\<rparr>)"
    using w2 assms(2) by (intro wf_state_entry) simp_all
  then show "wf_state (setup_one L os p st)" by (simp add: setup_one_def Let_def)
qed (simp_all add: setup_one_def Let_def)


lemma wf_state_log_message [simp]: "wf_state (log_message level msg st) = wf_state st"
  by (simp add: log_message_eq)

lemma wf_state_arrays:
  "wf_state st \<Longrightarrow> p < global_port_count st \<Longrightarrow>
   \<not> (length (wait_list st) \<le> p \<or> length (global_ports st) \<le> p)"
  by (simp add: wf_state_def)

lemma setup_listeners_keeps:
  "wf_state st \<Longrightarrow> setup_listeners L srv p st = Inr (ok, st') \<Longrightarrow>
     wf_state st' \<and> global_level st' = global_level st \<and> global_running st' = global_running st
     \<and> global_port_count st' = global_port_count st \<and> global_ports st' = global_ports st
     \<and> global_family st' = global_family st \<and> global_log st' = global_log st
     \<and> filter is_loop_event (trace st') = filter is_loop_event (trace st)"
proof (induction "global_port_count st - p" arbitrary: p st)
  case 0
  then show ?case by (subst (asm) setup_listeners_unfold) simp
next
  case (Suc n)
  then have plt: "p < global_port_count st" by simp
  note arr = wf_state_arrays [OF Suc.prems(1) plt]
  note one = setup_one_keeps [OF Suc.prems(1) plt, of L "srv p"]
  show ?case
  proof (cases "create_result (srv p) (global_ports st ! p) (global_family st) < 0")
    case True
    with Suc.prems(2) plt arr have "st' = log_error L ''Unable to create socket server''
                   (create_result (srv p) (global_ports st ! p) (global_family st))
                   (setup_one L (srv p) p st)"
      by (subst (asm) setup_listeners_unfold) simp
    with one show ?thesis by (simp add: log_error_eq)
  next
    case False
    let ?st = "log_message LOG_INFO
                 (''Listening to any address on the port '' @ string_of_int (global_ports st ! p))
                 (setup_one L (srv p) p st)"
    from False Suc.prems(2) plt arr have run: "setup_listeners L srv (Suc p) ?st = Inr (ok, st')"
      by (subst (asm) setup_listeners_unfold) simp
    have "n = global_port_count ?st - Suc p" using Suc.hyps(2) one by simp
    moreover have "wf_state ?st" using one by simp
    ultimately have "wf_state st' \<and> global_level st' = global_level ?st
       \<and> global_running st' = global_running ?st
       \<and> global_port_count st' = global_port_count ?st \<and> global_ports st' = global_ports ?st
       \<and> global_family st' = global_family ?st \<and> global_log st' = global_log ?st
       \<and> filter is_loop_event (trace st') = filter is_loop_event (trace ?st)"
      using run by (rule Suc.hyps(1))
    with one show ?thesis by (simp add: log_message_eq)
  qed
qed

lemma setup_listeners_fails:
  assumes "wf_state st" "p \<le> k" "k < global_port_count st"
      and "create_result (srv k) (global_ports st ! k) (global_family st) < 0"
  shows "\<exists>st' r. setup_listeners L srv p st = Inr (False, st')
           \<and> last (trace st') =
               EvWrite (global_log st) (''[ERROR] Unable to create socket server: '' @ strerror L r)"
  using assms
proof (induction "k - p" arbitrary: p st)
  case 0
  then have pk: "p = k" by simp
  note arr = wf_state_arrays [OF "0.prems"(1) "0.prems"(3)]
  note one = setup_one_keeps [OF "0.prems"(1) "0.prems"(3), of L "srv k"]
  have "setup_listeners L srv k st = Inr (False, log_error L ''Unable to create socket server''
                   (create_result (srv k) (global_ports st ! k) (global_family st))
                   (setup_one L (srv k) k st))"
    using "0.prems" arr by (subst setup_listeners_unfold) simp
  moreover have "last (trace (log_error L ''Unable to create socket server''
                   (create_result (srv k) (global_ports st ! k) (global_family st))
                   (setup_one L (srv k) k st))) =
        EvWrite (global_log st) (''[ERROR] Unable to create socket server: '' @
          strerror L (create_result (srv k) (global_ports st ! k) (global_family st)))"
    using one by (simp add: log_error_eq log_events_error)
  ultimately show ?case using pk by blast
next
  case (Suc n)
  then have plt: "p < global_port_count st" and pk: "p < k" by simp_all
  note arr = wf_state_arrays [OF Suc.prems(1) plt]
  note one = setup_one_keeps [OF Suc.prems(1) plt, of L "srv p"]
  show ?case
  proof (cases "create_result (srv p) (global_ports st ! p) (global_family st) < 0")
    case True
    then have "setup_listeners L srv p st = Inr (False, log_error L ''Unable to create socket server''
                   (create_result (srv p) (global_ports st ! p) (global_family st))
                   (setup_one L (srv p) p st))"
      using plt arr by (subst setup_listeners_unfold) simp
    moreover have "last (trace (log_error L ''Unable to create socket server''
                   (create_result (srv p) (global_ports st ! p) (global_family st))
                   (setup_one L (srv p) p st))) =
        EvWrite (global_log st) (''[ERROR] Unable to create socket server: '' @
          strerror L (create_result (srv p) (global_ports st ! p) (global_family st)))"
      using one by (simp add: log_error_eq log_events_error)
    ultimately show ?thesis by blast
  next
    case False
    let ?st = "log_message LOG_INFO
                 (''Listening to any address on the port '' @ string_of_int (global_ports st ! p))
                 (setup_one L (srv p) p st)"
    have step: "setup_listeners L srv p st = setup_listeners L srv (Suc p) ?st"
      using False plt arr by (subst setup_listeners_unfold) simp
    have "\<exists>st' r. setup_listeners L srv (Suc p) ?st = Inr (False, st')
           \<and> last (trace st') =
               EvWrite (global_log ?st) (''[ERROR] Unable to create socket server: '' @ strerror L r)"
    proof (rule Suc.hyps(1))
      show "n = k - Suc p" using Suc.hyps(2) by simp
      show "wf_state ?st" using one by simp
      show "Suc p \<le> k" using pk by simp
      show "k < global_port_count ?st" using Suc.prems(3) one by simp
      show "create_result (srv k) (global_ports ?st ! k) (global_family ?st) < 0"
        using Suc.prems(4) one by (simp add: log_message_eq)
    qed
    moreover have "global_log ?st = global_log st" using one by (simp add: log_message_eq)
    ultimately show ?thesis using step by simp
  qed
qed

lemma setup_listeners_returns:
  "wf_state st \<Longrightarrow> \<exists>ok st'. setup_listeners L srv p st = Inr (ok, st')"
proof (induction "global_port_count st - p" arbitrary: p st)
  case 0
  then have "setup_listeners L srv p st = Inr (True, st)"
    by (subst setup_listeners_unfold) simp
  then show ?case by blast
next
  case (Suc n)
  then have plt: "p < global_port_count st" by simp
  note arr = wf_state_arrays [OF Suc.prems(1) plt]
  note one = setup_one_keeps [OF Suc.prems(1) plt, of L "srv p"]
  show ?case
  proof (cases "create_result (srv p) (global_ports st ! p) (global_family st) < 0")
    case True
    with plt arr have "setup_listeners L srv p st = Inr (False, log_error L ''Unable to create socket server''
                   (create_result (srv p) (global_ports st ! p) (global_family st))
                   (setup_one L (srv p) p st))"
      by (subst setup_listeners_unfold) simp
    then show ?thesis by blast
  next
    case False
    let ?st = "log_message LOG_INFO
                 (''Listening to any address on the port '' @ string_of_int (global_ports st ! p))
                 (setup_one L (srv p) p st)"
    have "\<exists>ok st'. setup_listeners L srv (Suc p) ?st = Inr (ok, st')"
      using Suc.hyps(2) one by (intro Suc.hyps(1)) simp_all
    with False plt arr show ?thesis by (subst setup_listeners_unfold) simp
  qed
qed

section \<open>Evaluation of concrete runs\<close>

lemma string_of_nat_values:
  "string_of_nat 0 = ''0''" "string_of_nat 1 = ''1''" "string_of_nat (Suc 0) = ''1''"
  "string_of_nat 2 = ''2''" "string_of_nat 6 = ''6''" "string_of_nat 15 = ''15''"
  "string_of_nat 22 = ''22''" "string_of_nat 23 = ''23''" "string_of_nat 50 = ''50''"
  "string_of_nat 127 = ''127''" "string_of_nat 20675 = ''20675''"
  by (simp_all add: string_of_nat.simps digit_def)

lemma hex_of_nat_values:
  "hex_of_nat 0x2001 = ''2001''" "hex_of_nat 0xdb8 = ''db8''" "hex_of_nat 0x85a3 = ''85a3''"
  "hex_of_nat 0x1234 = ''1234''" "hex_of_nat 0x5678 = ''5678''" "hex_of_nat 0x8a2e = ''8a2e''"
  "hex_of_nat 0x370 = ''370''" "hex_of_nat 0x7334 = ''7334''"
  by (simp_all add: hex_of_nat.simps hex_digit_def)

lemmas run_defs =
  observe_def main_def main_loop_def init_state_def MAX_PORTS_def open_log_def
  setup_listeners.simps service.simps close_listeners.simps create_server_def Let_def
  AF_INET_def AF_INET6_def AF_UNSPEC_def POLLIN_def MAX_CONNECTIONS_def log_message_def log_error_def
  emit_def LOG_LEVELS_def banner_def nl_def string_of_int_def string_of_nat_values wake_step_def
  zero_pollfd_def poll_count_poll_write nonzero_def nth_poll_write deliver_def signal_handler_def
  accept_one_def log_connection_ipv4_def inet_ntop_def sizeof_sockaddr_in_def
  SIGINT_def SIGTERM_def SIGABRT_def sample_libc_def sample_strerror_def os_ok_def os_bind_fails_def

lemmas env_defs = quiet_def from_localhost_def interrupted_def EINTR_def

lemmas startup_defs =
  main_def init_state_def MAX_PORTS_def open_log_def
  setup_listeners.simps create_server_def Let_def
  AF_INET_def AF_INET6_def AF_UNSPEC_def POLLIN_def MAX_CONNECTIONS_def log_message_def log_error_def
  emit_def LOG_LEVELS_def string_of_int_def string_of_nat_values
  zero_pollfd_def sample_libc_def sample_strerror_def os_ok_def os_bind_fails_def

lemma listening2_reached:
  "main sample_libc
     \<lparr>argv0 = ''net-bouncer'', getopt = [Opt_p 22, Opt_p 23], fopen_errno = None,
      servers = (\<lambda>p. os_ok (3 + int p)), wakes = ws\<rparr> =
   main_loop sample_libc ws listening2"
  by (simp add: listening2_def startup_defs numeral_2_eq_2)

lemma listening2_wf: "wf_state listening2"
  by (simp add: listening2_def wf_state_def init_state_def MAX_PORTS_def drop_update_cancel
        list_all_iff zero_pollfd_def)

lemma listening2_fields:
  "global_running listening2" "global_port_count listening2 = 2"
  "global_log listening2 = Some Stderr" "global_level listening2 = LOG_INFO"
  "global_family listening2 = AF_INET"
  "closing listening2 = [EvClose 3, EvClose 4]"
  by (simp_all add: listening2_def init_state_def closing_def MAX_PORTS_def numeral_2_eq_2
        take_Suc_conv_app_nth)

section \<open>Exits of the loop and of the program\<close>

lemma closing_later: "later st st' \<Longrightarrow> closing st' = closing st"
  by (simp add: closing_def later_def take_map [symmetric])

lemma accept_one_fail:
  assumes "p < length (wait_list st)" "acc_result (w_accept w p) < 0"
  shows "accept_one L w p st = Break (after_accept L w p st)"
  using assms
  by (simp add: accept_one_def Let_def deliver_eq log_error_eq emit_def after_accept_def
        accept_events_def signal_events_def)

lemma wake_step_poll_fail:
  assumes "w_poll w = PollFail e"
  shows "wake_step L w st =
           Break (st\<lparr>global_running := global_running st \<and> w_signals w = [],
                     trace := trace st @ signal_events st (w_signals w)
                       @ [EvPoll (global_port_count st) (- 1)]
                       @ log_events st LOG_ERROR (''Error waiting connection: '' @ strerror L e)\<rparr>)"
  using assms by (simp add: wake_step_def Let_def deliver_eq log_error_eq emit_def)

lemma main_loop_exit:
  assumes "wf_state st" "event_loop L ws st = Inr st'"
  shows "main_loop L ws st = Inr (0, st'\<lparr>trace := trace st' @ closing st\<rparr>)"
proof -
  from event_loop_later_wf [OF assms] have l: "later st st'" and w: "wf_state st'" by simp_all
  from w have "close_listeners 0 st' = Inr (st'\<lparr>trace := trace st' @ closing st'\<rparr>)"
    by (simp add: close_listeners_eq wf_state_bound closing_def)
  with assms(2) l show ?thesis by (simp add: main_loop_def closing_later)
qed

lemma main_loop_status: "main_loop L ws st = Inr (c, st') \<Longrightarrow> c = 0"
  by (auto simp add: main_loop_def split: sum.splits)

lemma main_status:
  assumes "main L env = Inr (c, st)"
  shows "c = 0 \<or> (c = 1 \<and> filter is_loop_event (trace st) = [])"
proof (cases "parse_options (argv0 env) (getopt env) init_state")
  case (Pair ok0 st0)
  note p0 = parse_options_keeps [OF Pair init_state_wf]
  have t0: "filter is_loop_event (trace st0) = []" using p0 by (simp add: init_state_def)
  show ?thesis
  proof (cases ok0)
    case False
    with assms Pair t0 show ?thesis by (auto simp add: main_def parse_help_def emit_def)
  next
    case True
    obtain ok1 st1 where o: "open_log L env st0 = (ok1, st1)" by (cases "open_log L env st0")
    from open_log_keeps [OF o] p0 t0 have w1: "wf_state st1"
      and t1: "filter is_loop_event (trace st1) = []" by simp_all
    show ?thesis
    proof (cases ok1)
      case False
      with assms Pair True o t1 show ?thesis by (simp add: main_def)
    next
      case ok1: True
      let ?st = "emit (EvWrite (global_log st1) banner) st1"
      have w: "wf_state ?st" using w1 by (simp add: emit_def)
      have t: "filter is_loop_event (trace ?st) = []" using t1 by simp
      from setup_listeners_returns [OF w, of L "servers env" 0]
      obtain ok2 st2 where s: "setup_listeners L (servers env) 0 ?st = Inr (ok2, st2)" by blast
      from setup_listeners_keeps [OF w s] t
      have t2: "filter is_loop_event (trace st2) = []" by simp
      show ?thesis
      proof (cases ok2)
        case False
        with assms Pair True o ok1 s t2 show ?thesis by (simp add: main_def)
      next
        case True
        with assms Pair \<open>ok0\<close> o ok1 s have "main_loop L (wakes env) st2 = Inr (c, st)"
          by (simp add: main_def)
        then show ?thesis by (simp add: main_loop_status)
      qed
    qed
  qed
qed

lemma serve_events_all_accepted:
  "(\<And>p. p \<in> set ps \<Longrightarrow> 0 \<le> acc_result (w_accept w p)) \<Longrightarrow>
   serve_events L w st ps = concat (map (accept_events L w st) ps)"
proof (induction ps)
  case Nil
  show ?case by simp
next
  case (Cons a ps)
  from Cons.prems have "0 \<le> acc_result (w_accept w a)" by simp
  moreover have "serve_events L w st ps = concat (map (accept_events L w st) ps)"
    by (rule Cons.IH) (simp add: Cons.prems)
  ultimately show ?case by simp
qed

lemma after_accept_fail_last:
  assumes "acc_result (w_accept w p) < 0"
  shows "last (trace (after_accept L w p st)) =
           EvWrite (global_log st)
             (''[ERROR] Error accepting connection: '' @ strerror L (acc_errno (w_accept w p)))"
  using assms by (simp add: accept_events_def log_events_error)


section \<open>The program as a sequence of single actions\<close>

text \<open>
  The assignments and calls the program is made of, one at a time: a run of the
  signal handler, a call that leaves an event, and the stores into the listener
  array, the port array and its count, the log file name, the address family and the
  log handle. These are all the places where the C text changes a variable.
\<close>

datatype action =
    Handler termsig
  | Event event
  | Wait_list "pollfd list"
  | Ports "int list" nat
  | Log_file "string option"
  | Family int
  | Log "stream option"

fun perform :: "action \<Rightarrow> state \<Rightarrow> state" where
  "perform (Handler s) st = signal_handler (sig_number s) st"
| "perform (Event e) st = emit e st"
| "perform (Wait_list wl) st = st\<lparr>wait_list := wl\<rparr>"
| "perform (Ports ps n) st = st\<lparr>global_ports := ps, global_port_count := n\<rparr>"
| "perform (Log_file f) st = st\<lparr>global_log_file := f\<rparr>"
| "perform (Family fam) st = st\<lparr>global_family := fam\<rparr>"
| "perform (Log h) st = st\<lparr>global_log := h\<rparr>"


text \<open>\<open>path st st'\<close>: some sequence of such actions leads from \<open>st\<close> to \<open>st'\<close>.\<close>

definition path :: "state \<Rightarrow> state \<Rightarrow> bool" where
  "path st st' = (\<exists>acts. st' = fold perform acts st)"



lemma path_refl [simp]: "path st st"
proof -
  have "st = fold perform [] st" by simp
  then show ?thesis unfolding path_def by (rule exI)
qed


































section \<open>Theorems\<close>

text \<open>C7: a record is emitted exactly when the level is numerically at most the
  threshold \<^verbatim>\<open>global_level\<close>, a dropped record changes nothing, and the threshold
  the program starts with is INFO.\<close>

theorem log_message_threshold:
  "(trace (log_message level msg st) \<noteq> trace st) = (level_num level \<le> level_num (global_level st))
   \<and> (trace (log_message level msg st) =
        (if level_num level \<le> level_num (global_level st)
         then trace st @ [EvWrite (global_log st)
                (''['' @ LOG_LEVELS ! nat (level_num level) @ ''] '' @ msg)]
         else trace st))
   \<and> (level_num (global_level st) < level_num level \<longrightarrow> log_message level msg st = st)
   \<and> global_level init_state = LOG_INFO"
  by (cases level; cases "global_level st") (simp_all add: log_message_def emit_def init_state_def)

theorem log_message_threshold_witness:
  "level_num (global_level (init_state\<lparr>global_level := LOG_ERROR\<rparr>)) < level_num LOG_INFO
   \<and> log_message LOG_INFO ''Connection from 127.0.0.1 on port 22''
        (init_state\<lparr>global_level := LOG_ERROR\<rparr>) = init_state\<lparr>global_level := LOG_ERROR\<rparr>
   \<and> trace (log_message LOG_INFO ''x'' init_state) = [EvWrite None ''[INFO] x'']"
  using log_message_threshold [of LOG_INFO "''Connection from 127.0.0.1 on port 22''"
          "init_state\<lparr>global_level := LOG_ERROR\<rparr>"]
        log_message_threshold [of LOG_INFO "''x''" init_state]
  by (simp add: init_state_def LOG_LEVELS_def)

text \<open>C8: a port outside 1..65535 or a family other than IPv4 and IPv6 makes
  \<^verbatim>\<open>create_server\<close> return the error \<open>- EINVAL\<close> with the state as it was (no call to
  \<^verbatim>\<open>socket\<close>, no event at all); and a backlog that is zero or negative is replaced by 5:
  the call behaves as the call with backlog 5, and the \<^verbatim>\<open>listen\<close> it makes, when it
  gets that far, has backlog 5.\<close>

theorem create_server_arguments:
  "(port \<le> 0 \<or> 65535 < port \<or> (family \<noteq> AF_INET \<and> family \<noteq> AF_INET6)
      \<longrightarrow> create_server L os port family b st = (- EINVAL, st) \<and> - EINVAL < 0)
   \<and> (b \<le> 0 \<longrightarrow>
         create_server L os port family b st = create_server L os port family 5 st
         \<and> backlogs (trace (snd (create_server L os port family b st))) =
             backlogs (trace st) @
               (if 0 < port \<and> port \<le> 65535 \<and> (family = AF_INET \<or> family = AF_INET6)
                   \<and> 0 \<le> os_socket os \<and> 0 \<le> os_bind os
                then [5] else []))"
  by (auto simp add: create_server_def Let_def EINVAL_def backlogs_append trace_log_message)

theorem create_server_arguments_witness:
  "create_server sample_libc (os_ok 3) 70000 AF_INET 50 init_state = (- 22, init_state)
   \<and> create_server sample_libc (os_ok 3) 22 AF_UNSPEC 50 init_state = (- 22, init_state)
   \<and> create_server sample_libc (os_ok 3) 22 AF_INET (- 1) init_state =
       create_server sample_libc (os_ok 3) 22 AF_INET 5 init_state
   \<and> backlogs (trace (snd (create_server sample_libc (os_ok 3) 22 AF_INET (- 1) init_state))) = [5]"
proof -
  have a: "create_server sample_libc (os_ok 3) 70000 AF_INET 50 init_state = (- 22, init_state)"
    using create_server_arguments [of 70000 AF_INET sample_libc "os_ok 3" 50 init_state]
    by (simp add: EINVAL_def)
  have b: "create_server sample_libc (os_ok 3) 22 AF_UNSPEC 50 init_state = (- 22, init_state)"
    using create_server_arguments [of 22 AF_UNSPEC sample_libc "os_ok 3" 50 init_state]
    by (simp add: AF_INET_def AF_INET6_def AF_UNSPEC_def EINVAL_def)
  have neg: "(- 1 :: int) \<le> 0" by simp
  have c: "create_server sample_libc (os_ok 3) 22 AF_INET (- 1) init_state =
             create_server sample_libc (os_ok 3) 22 AF_INET 5 init_state"
    using create_server_arguments [of 22 AF_INET sample_libc "os_ok 3" "- 1" init_state] neg
    by blast
  have "backlogs (trace (snd (create_server sample_libc (os_ok 3) 22 AF_INET (- 1) init_state))) =
          backlogs (trace init_state) @
            (if 0 < (22::int) \<and> (22::int) \<le> 65535 \<and> (AF_INET = AF_INET \<or> AF_INET = AF_INET6)
                \<and> 0 \<le> os_socket (os_ok 3) \<and> 0 \<le> os_bind (os_ok 3)
             then [5] else [])"
    using create_server_arguments [of 22 AF_INET sample_libc "os_ok 3" "- 1" init_state] neg
    by blast
  then have d: "backlogs (trace (snd (create_server sample_libc (os_ok 3) 22 AF_INET (- 1) init_state))) = [5]"
    by (simp add: os_ok_def init_state_def)
  from a b c d show ?thesis by blast
qed

text \<open>C10: when \<^verbatim>\<open>create_server\<close> returns an error, the sockets open afterwards are
  the sockets that were open before; and when the socket was created and \<^verbatim>\<open>bind\<close> or
  \<^verbatim>\<open>listen\<close> failed, the call returns an error and the last thing it did was to close
  that socket. The descriptor \<^verbatim>\<open>socket\<close> hands out is one that is not open.\<close>

theorem create_server_failure_closes:
  assumes fresh: "os_socket os \<notin> set (open_sockets st)"
  shows "(fst (create_server L os port family b st) < 0
            \<longrightarrow> open_sockets (snd (create_server L os port family b st)) = open_sockets st)
         \<and> (0 < port \<and> port \<le> 65535 \<and> (family = AF_INET \<or> family = AF_INET6)
              \<and> 0 \<le> os_socket os \<and> (os_bind os < 0 \<or> os_listen os < 0)
            \<longrightarrow> fst (create_server L os port family b st) < 0
                \<and> last (trace (snd (create_server L os port family b st))) = EvClose (os_socket os))"
  using fresh
  by (auto simp add: create_server_def Let_def EINVAL_def open_sockets_def open_after_append
        trace_log_message)

theorem create_server_failure_closes_witness:
  "os_socket (os_bind_fails 3) \<notin> set (open_sockets init_state)
   \<and> create_server sample_libc (os_bind_fails 3) 22 AF_INET 50 init_state =
       (- 1, init_state\<lparr>trace := [EvSocket 2 3, EvSetsockopt 3 0, EvBind 3 2 22 (- 1), EvClose 3]\<rparr>)
   \<and> open_sockets (snd (create_server sample_libc (os_bind_fails 3) 22 AF_INET 50 init_state)) = []
   \<and> last (trace (snd (create_server sample_libc (os_bind_fails 3) 22 AF_INET 50 init_state))) =
       EvClose 3"
proof -
  have fresh: "os_socket (os_bind_fails 3) \<notin> set (open_sockets init_state)"
    by (simp add: open_sockets_def init_state_def)
  have run: "create_server sample_libc (os_bind_fails 3) 22 AF_INET 50 init_state =
       (- 1, init_state\<lparr>trace := [EvSocket 2 3, EvSetsockopt 3 0, EvBind 3 2 22 (- 1), EvClose 3]\<rparr>)"
    by (simp add: create_server_def Let_def os_bind_fails_def AF_INET_def AF_INET6_def
          AF_UNSPEC_def emit_def init_state_def)
  from create_server_failure_closes [OF fresh, of sample_libc 22 AF_INET 50] fresh run
  show ?thesis
    by (simp add: open_sockets_def init_state_def AF_INET_def os_bind_fails_def)
qed

text \<open>C1, evaluated on the code: \<^verbatim>\<open>net-bouncer -p 22\<close> accepts one connection from
  127.0.0.1 whose source port is 50000. Exactly one connection record is written, but
  the port in it is the port field of the peer address as it lies in the structure
  (20675), not the local port 22. Second part: for an IPv6 peer whose address text
  does not fit into the 28 bytes that \<^verbatim>\<open>log_connection_ipv6\<close> allows
  \<^verbatim>\<open>inet_ntop\<close>, the record holds whatever the uninitialised buffer holds instead of
  the address.\<close>

theorem connection_record_run:
  "observe (main sample_libc env_port22) =
     Inr (0,
       [EvWrite (Some Stderr) (nl @ ''net-bouncer 0.1.0'' @ nl),
        EvSocket 2 3, EvSetsockopt 3 0, EvBind 3 2 22 0, EvListen 3 50 0,
        EvWrite (Some Stderr) ''[INFO] Listening to any address on the port 22'',
        EvPoll 1 1, EvAccept 3 4,
        EvWrite (Some Stderr) ''[INFO] Connection from 127.0.0.1 on port 20675'',
        EvClose 4,
        EvWrite (Some Stderr) ''[WARNING] Caught signal 2!'',
        EvPoll 1 (- 1),
        EvWrite (Some Stderr) ''[ERROR] Error waiting connection: Interrupted system call'',
        EvClose 3])
   \<and> trace (log_connection_ipv6 sample_libc LOG_INFO
               \<lparr>sin6_port = 0x50C3,
                sin6_addr = [0x2001, 0xdb8, 0x85a3, 0x1234, 0x5678, 0x8a2e, 0x370, 0x7334]\<rparr>
               (init_state\<lparr>global_log := Some Stderr\<rparr>)) =
       [EvWrite (Some Stderr) (''[INFO] Connection from '' @ uninit sample_libc @ '' on port 20675'')]"
  by (simp add: env_port22_def env_defs run_defs log_connection_ipv6_def sizeof_sockaddr_in6_def
        hex_of_nat_values)

text \<open>C4, as stated, fails: the signal handler writes to the log handle. On a state
  whose log is the standard error stream, \<^verbatim>\<open>SIGTERM\<close> leaves one warning record
  behind, so the handler changes more than the running flag.\<close>

theorem signal_handler_writes_log:
  "signal_handler SIGTERM (init_state\<lparr>global_log := Some Stderr\<rparr>) =
     init_state\<lparr>global_log := Some Stderr, global_running := False,
                trace := [EvWrite (Some Stderr) ''[WARNING] Caught signal 15!'']\<rparr>
   \<and> signal_handler SIGTERM (init_state\<lparr>global_log := Some Stderr\<rparr>) \<noteq>
     init_state\<lparr>global_log := Some Stderr, global_running := False\<rparr>"
  by (simp add: run_defs)

text \<open>C4, amended: the signal handler sets the running flag to false and appends at
  most one event, a write of the warning record to the log handle (when the threshold
  admits warnings); every other variable, the listener array among them, is as before,
  and the handler makes no call on a socket.\<close>

theorem signal_handler_frame:
  "signal_handler n st =
     st\<lparr>global_running := False,
        trace := trace st @
          (if level_num LOG_WARNING \<le> level_num (global_level st)
           then [EvWrite (global_log st) (''[WARNING] Caught signal '' @ string_of_int n @ ''!'')]
           else [])\<rparr>
   \<and> filter (\<lambda>e. \<not> is_write e) (trace (signal_handler n st)) = filter (\<lambda>e. \<not> is_write e) (trace st)"
  by (simp add: signal_handler_eq log_events_def caught_text_def LOG_LEVELS_def)

text \<open>C5, as stated, fails: in \<^verbatim>\<open>net-bouncer -p 22 -p 23\<close> both listeners are
  reported ready by the same \<^verbatim>\<open>poll\<close>; \<^verbatim>\<open>accept\<close> on the first fails, and the
  second listener (descriptor 4) is not serviced in that wake: no \<^verbatim>\<open>accept\<close> on it
  follows before the next \<^verbatim>\<open>poll\<close>.\<close>

theorem accept_failure_skips_ready_listener:
  "observe (main sample_libc env_accept_fails) =
     Inr (0,
       [EvWrite (Some Stderr) (nl @ ''net-bouncer 0.1.0'' @ nl),
        EvSocket 2 3, EvSetsockopt 3 0, EvBind 3 2 22 0, EvListen 3 50 0,
        EvWrite (Some Stderr) ''[INFO] Listening to any address on the port 22'',
        EvSocket 2 4, EvSetsockopt 4 0, EvBind 4 2 23 0, EvListen 4 50 0,
        EvWrite (Some Stderr) ''[INFO] Listening to any address on the port 23'',
        EvPoll 2 2, EvAccept 3 (- 1),
        EvWrite (Some Stderr) ''[ERROR] Error accepting connection: Too many open files'',
        EvWrite (Some Stderr) ''[WARNING] Caught signal 15!'',
        EvPoll 2 (- 1),
        EvWrite (Some Stderr) ''[ERROR] Error waiting connection: Interrupted system call'',
        EvClose 3, EvClose 4])"
  by (simp add: env_accept_fails_def first_refused_def env_defs refused_def run_defs)

text \<open>C5, amended: within one wake in which \<^verbatim>\<open>poll\<close> succeeds, the events after the
  \<^verbatim>\<open>poll\<close> are those of servicing the listeners reported ready, in the order in
  which the listeners were registered: for each one \<^verbatim>\<open>accept\<close>, then the connection
  record, then the \<^verbatim>\<open>close\<close> of the connection, all before the next listener's
  \<^verbatim>\<open>accept\<close>, and stopping at the first \<^verbatim>\<open>accept\<close> that fails (its error is
  logged and the remaining ready listeners are not serviced in this wake). When every
  \<^verbatim>\<open>accept\<close> succeeds, every ready listener is serviced exactly once. With all
  \<^verbatim>\<open>MAX_PORTS\<close> listeners in use, \<^verbatim>\<open>poll\<close> must report nothing but \<^verbatim>\<open>POLLIN\<close>.\<close>

theorem wake_service_order:
  assumes poll: "w_poll w = PollReady rs"
      and wf: "wf_state st"
      and peers: "\<forall>p \<in> set (reported rs (global_port_count st)).
                    peer_ok (global_family st) (acc_peer (w_accept w p))"
      and extra: "global_port_count st < MAX_PORTS
                  \<or> nonzero rs (global_port_count st) = reported rs (global_port_count st)"
  shows "\<exists>st'. wake_step L w st = Continue st'
           \<and> trace st' = trace st @ signal_events st (w_signals w)
                 @ [EvPoll (global_port_count st) (int (length (nonzero rs (global_port_count st))))]
                 @ serve_events L w st (reported rs (global_port_count st))
           \<and> ((\<forall>p \<in> set (reported rs (global_port_count st)). 0 \<le> acc_result (w_accept w p))
                \<longrightarrow> serve_events L w st (reported rs (global_port_count st)) =
                      concat (map (accept_events L w st) (reported rs (global_port_count st))))"
proof -
  have bound: "global_port_count st \<le> length (wait_list st)"
    using wf by (rule wf_state_bound)
  have "(global_port_count st < length (wait_list st)
          \<and> revents (wait_list st ! global_port_count st) AND POLLIN = 0)
        \<or> nonzero rs (global_port_count st) = reported rs (global_port_count st)"
  proof (cases "global_port_count st < MAX_PORTS")
    case True
    then have "global_port_count st < length (wait_list st)" using wf by (simp add: wf_state_def)
    with wf show ?thesis by (simp add: wf_state_last)
  next
    case False
    with extra show ?thesis by simp
  qed
  from wake_step_trace [OF poll bound peers this, of L]
  show ?thesis by (auto simp add: serve_events_all_accepted)
qed

theorem wake_service_order_witness:
  "w_poll both_ready = PollReady [POLLIN, POLLIN] \<and> wf_state listening2
   \<and> reported [POLLIN, POLLIN] (global_port_count listening2) = [0, 1]
   \<and> (\<exists>st'. wake_step sample_libc both_ready listening2 = Continue st'
          \<and> trace st' = trace listening2 @
               [EvPoll 2 2,
                EvAccept 3 5,
                EvWrite (Some Stderr) ''[INFO] Connection from 127.0.0.1 on port 20675'',
                EvClose 5,
                EvAccept 4 6,
                EvWrite (Some Stderr) ''[INFO] Connection from 127.0.0.1 on port 20675'',
                EvClose 6])"
proof -
  have poll: "w_poll both_ready = PollReady [POLLIN, POLLIN]" by (simp add: both_ready_def)
  have rep: "reported [POLLIN, POLLIN] (global_port_count listening2) = [0, 1]"
    by (simp add: reported_def listening2_fields POLLIN_def numeral_2_eq_2)
  have non: "nonzero [POLLIN, POLLIN] (global_port_count listening2) = [0, 1]"
    by (simp add: nonzero_def listening2_fields POLLIN_def numeral_2_eq_2)
  have peers: "\<forall>p \<in> set (reported [POLLIN, POLLIN] (global_port_count listening2)).
                 peer_ok (global_family listening2) (acc_peer (w_accept both_ready p))"
    by (simp add: rep listening2_fields both_ready_def from_localhost_def AF_INET_def AF_INET6_def)
  have extra: "global_port_count listening2 < MAX_PORTS
               \<or> nonzero [POLLIN, POLLIN] (global_port_count listening2) =
                  reported [POLLIN, POLLIN] (global_port_count listening2)"
    by (simp add: listening2_fields MAX_PORTS_def)
  have ev: "serve_events sample_libc both_ready listening2 [0, 1] =
               [EvAccept 3 5,
                EvWrite (Some Stderr) ''[INFO] Connection from 127.0.0.1 on port 20675'',
                EvClose 5,
                EvAccept 4 6,
                EvWrite (Some Stderr) ''[INFO] Connection from 127.0.0.1 on port 20675'',
                EvClose 6]"
    by (simp add: accept_events_def signal_events_def log_events_def both_ready_def env_defs
          listening2_def init_state_def MAX_PORTS_def LOG_LEVELS_def conn_text_def address4_def
          inet_ntop_def sizeof_sockaddr_in_def string_of_int_def string_of_nat_values)
  have sig: "signal_events listening2 (w_signals both_ready) = []"
    by (simp add: signal_events_def both_ready_def)
  from wake_service_order [OF poll listening2_wf peers extra, of sample_libc]
  obtain st' where run: "wake_step sample_libc both_ready listening2 = Continue st'"
    and tr: "trace st' = trace listening2 @ signal_events listening2 (w_signals both_ready)
                 @ [EvPoll (global_port_count listening2)
                      (int (length (nonzero [POLLIN, POLLIN] (global_port_count listening2))))]
                 @ serve_events sample_libc both_ready listening2
                     (reported [POLLIN, POLLIN] (global_port_count listening2))"
    by blast
  from tr have "trace st' = trace listening2 @
               [EvPoll 2 2,
                EvAccept 3 5,
                EvWrite (Some Stderr) ''[INFO] Connection from 127.0.0.1 on port 20675'',
                EvClose 5,
                EvAccept 4 6,
                EvWrite (Some Stderr) ''[INFO] Connection from 127.0.0.1 on port 20675'',
                EvClose 6]"
    by (simp only: rep non ev sig) (simp add: listening2_fields)
  with run poll listening2_wf rep show ?thesis by blast
qed

text \<open>C2, as stated, fails: \<^verbatim>\<open>poll\<close> fails with \<^verbatim>\<open>ENOMEM\<close>, the error is logged,
  the loop exits, the listener is closed, and the exit status is 0.\<close>

theorem poll_failure_exit_status:
  "observe (main sample_libc env_poll_fails) =
     Inr (0,
       [EvWrite (Some Stderr) (nl @ ''net-bouncer 0.1.0'' @ nl),
        EvSocket 2 3, EvSetsockopt 3 0, EvBind 3 2 22 0, EvListen 3 50 0,
        EvWrite (Some Stderr) ''[INFO] Listening to any address on the port 22'',
        EvPoll 1 (- 1),
        EvWrite (Some Stderr) ''[ERROR] Error waiting connection: Cannot allocate memory'',
        EvClose 3])"
  by (simp add: env_poll_fails_def out_of_memory_def env_defs refused_def run_defs)


text \<open>C2, amended: a failure of \<^verbatim>\<open>poll\<close> is logged as an error and ends the event
  loop at once: nothing is accepted after it, the wakes that would follow are never
  looked at, the listeners are closed and the exit status is 0. A failure of
  \<^verbatim>\<open>accept\<close> on a ready listener is logged as an error and ends the servicing of
  that wake. Whenever the program exits after the event loop, the status is 0; a
  status other than 0 is 1 and comes from startup, before any \<^verbatim>\<open>poll\<close> or
  \<^verbatim>\<open>accept\<close>.\<close>

theorem runtime_errors:
  "(wf_state st \<and> global_running st \<and> w_poll w = PollFail e \<longrightarrow>
      (\<exists>st'. event_loop L (w # ws) st = Inr st'
         \<and> trace st' = trace st @ signal_events st (w_signals w)
              @ [EvPoll (global_port_count st) (- 1),
                 EvWrite (global_log st) (''[ERROR] Error waiting connection: '' @ strerror L e)]
         \<and> main_loop L (w # ws) st = Inr (0, st'\<lparr>trace := trace st' @ closing st\<rparr>)))
   \<and> (p < length (wait_list st) \<and> acc_result (w_accept w p) < 0 \<longrightarrow>
         accept_one L w p st = Break (after_accept L w p st)
         \<and> last (trace (after_accept L w p st)) =
             EvWrite (global_log st)
               (''[ERROR] Error accepting connection: '' @ strerror L (acc_errno (w_accept w p)))
         \<and> (p \<le> global_port_count st \<and> 0 < evs \<and> revents (wait_list st ! p) AND POLLIN \<noteq> 0 \<longrightarrow>
               service L w p evs st = Inr (after_accept L w p st)))
   \<and> (main_loop L ws st = Inr (c, st') \<longrightarrow> c = 0)
   \<and> (main L env = Inr (c, st') \<longrightarrow> c = 0 \<or> (c = 1 \<and> filter is_loop_event (trace st') = []))"
proof (intro conjI impI)
  assume a: "wf_state st \<and> global_running st \<and> w_poll w = PollFail e"
  let ?st = "st\<lparr>global_running := global_running st \<and> w_signals w = [],
                trace := trace st @ signal_events st (w_signals w)
                  @ [EvPoll (global_port_count st) (- 1)]
                  @ log_events st LOG_ERROR (''Error waiting connection: '' @ strerror L e)\<rparr>"
  have ev: "event_loop L (w # ws) st = Inr ?st"
    using a by (simp add: wake_step_poll_fail [of w e L st])
  moreover have "trace ?st = trace st @ signal_events st (w_signals w)
              @ [EvPoll (global_port_count st) (- 1),
                 EvWrite (global_log st) (''[ERROR] Error waiting connection: '' @ strerror L e)]"
    by (simp add: log_events_error)
  moreover have "main_loop L (w # ws) st = Inr (0, ?st\<lparr>trace := trace ?st @ closing st\<rparr>)"
    using a ev by (intro main_loop_exit) simp_all
  ultimately show "\<exists>st'. event_loop L (w # ws) st = Inr st'
         \<and> trace st' = trace st @ signal_events st (w_signals w)
              @ [EvPoll (global_port_count st) (- 1),
                 EvWrite (global_log st) (''[ERROR] Error waiting connection: '' @ strerror L e)]
         \<and> main_loop L (w # ws) st = Inr (0, st'\<lparr>trace := trace st' @ closing st\<rparr>)"
    by blast
next
  assume "p < length (wait_list st) \<and> acc_result (w_accept w p) < 0"
  then show "accept_one L w p st = Break (after_accept L w p st)"
    by (simp add: accept_one_fail)
next
  assume "p < length (wait_list st) \<and> acc_result (w_accept w p) < 0"
  then have "acc_result (w_accept w p) < 0" by simp
  then show "last (trace (after_accept L w p st)) =
             EvWrite (global_log st)
               (''[ERROR] Error accepting connection: '' @ strerror L (acc_errno (w_accept w p)))"
    by (rule after_accept_fail_last)
next
  assume a: "p < length (wait_list st) \<and> acc_result (w_accept w p) < 0"
    and b: "p \<le> global_port_count st \<and> 0 < evs \<and> revents (wait_list st ! p) AND POLLIN \<noteq> 0"
  from a have "accept_one L w p st = Break (after_accept L w p st)"
    by (simp add: accept_one_fail)
  with a b show "service L w p evs st = Inr (after_accept L w p st)"
    by (subst service.simps) simp
next
  assume "main_loop L ws st = Inr (c, st')"
  then show "c = 0" by (rule main_loop_status)
next
  assume "main L env = Inr (c, st')"
  then show "c = 0 \<or> (c = 1 \<and> filter is_loop_event (trace st') = [])" by (rule main_status)
qed

theorem runtime_errors_witness:
  "wf_state listening2 \<and> global_running listening2 \<and> w_poll out_of_memory = PollFail 12
   \<and> observe (main_loop sample_libc [out_of_memory] listening2) =
       Inr (0, trace listening2 @
               [EvPoll 2 (- 1),
                EvWrite (Some Stderr) ''[ERROR] Error waiting connection: Cannot allocate memory'',
                EvClose 3, EvClose 4])
   \<and> acc_result (w_accept first_refused 0) < 0
   \<and> revents (wait_list polled2 ! 0) AND POLLIN \<noteq> 0
   \<and> service sample_libc first_refused 0 2 polled2 = Inr (after_accept sample_libc first_refused 0 polled2)
   \<and> last (trace (after_accept sample_libc first_refused 0 polled2)) =
       EvWrite (Some Stderr) ''[ERROR] Error accepting connection: Too many open files''"
proof -
  have h1: "wf_state listening2 \<and> global_running listening2 \<and> w_poll out_of_memory = PollFail 12"
    by (simp add: listening2_wf listening2_fields out_of_memory_def)
  from runtime_errors [where st = listening2 and w = out_of_memory and e = 12 and L = sample_libc
                         and ws = "[]"] h1
  obtain st' where tr: "trace st' = trace listening2 @ signal_events listening2 (w_signals out_of_memory)
              @ [EvPoll (global_port_count listening2) (- 1),
                 EvWrite (global_log listening2)
                   (''[ERROR] Error waiting connection: '' @ strerror sample_libc 12)]"
    and ml: "main_loop sample_libc [out_of_memory] listening2 =
               Inr (0, st'\<lparr>trace := trace st' @ closing listening2\<rparr>)"
    by blast
  have c1: "observe (main_loop sample_libc [out_of_memory] listening2) =
       Inr (0, trace listening2 @
               [EvPoll 2 (- 1),
                EvWrite (Some Stderr) ''[ERROR] Error waiting connection: Cannot allocate memory'',
                EvClose 3, EvClose 4])"
  proof -
    have "observe (main_loop sample_libc [out_of_memory] listening2) =
            Inr (0, trace st' @ closing listening2)"
      by (simp add: ml observe_def)
    moreover have "trace st' @ closing listening2 = trace listening2 @
               [EvPoll 2 (- 1),
                EvWrite (Some Stderr) ''[ERROR] Error waiting connection: Cannot allocate memory'',
                EvClose 3, EvClose 4]"
      by (simp add: tr listening2_fields signal_events_def out_of_memory_def
            sample_libc_def sample_strerror_def)
    ultimately show ?thesis by simp
  qed
  have len: "0 < length (wait_list polled2)"
    by (simp add: polled2_def listening2_def init_state_def MAX_PORTS_def emit_def)
  have neg: "acc_result (w_accept first_refused 0) < 0"
    by (simp add: first_refused_def refused_def)
  have rdy: "revents (wait_list polled2 ! 0) AND POLLIN \<noteq> 0"
    by (simp add: polled2_def listening2_def init_state_def MAX_PORTS_def emit_def nth_poll_write
          POLLIN_def)
  have cnt: "0 \<le> global_port_count polled2 \<and> (0::int) < 2" by simp
  from runtime_errors [where st = polled2 and w = first_refused and L = sample_libc and p = 0
                         and evs = 2] len neg rdy cnt
  have c2: "service sample_libc first_refused 0 2 polled2 =
              Inr (after_accept sample_libc first_refused 0 polled2)"
    and c3: "last (trace (after_accept sample_libc first_refused 0 polled2)) =
       EvWrite (global_log polled2)
         (''[ERROR] Error accepting connection: '' @
          strerror sample_libc (acc_errno (w_accept first_refused 0)))"
    by blast+
  have c3': "last (trace (after_accept sample_libc first_refused 0 polled2)) =
       EvWrite (Some Stderr) ''[ERROR] Error accepting connection: Too many open files''"
    unfolding c3
    by (simp add: polled2_def emit_def listening2_def first_refused_def refused_def
          sample_libc_def sample_strerror_def)
  from h1 c1 neg rdy c2 c3' show ?thesis by blast
qed



text \<open>C6: when the options are parsed and the log is open, and \<^verbatim>\<open>create_server\<close>
  returns an error for some requested port, the program exits with status 1, the last
  thing it does is to log the error, and it never enters the event loop: no \<^verbatim>\<open>poll\<close>
  and no \<^verbatim>\<open>accept\<close> is among its events, so no listener is ever serviced. (The
  listeners created before the failing one are not closed by the program; they end
  with the process.)\<close>

theorem startup_all_or_nothing:
  assumes parse: "parse_options (argv0 env) (getopt env) init_state = (True, st0)"
      and log: "open_log L env st0 = (True, st1)"
      and k: "k < global_port_count st0"
      and fail: "fst (create_server L (servers env k) (global_ports st0 ! k) (global_family st0)
                        MAX_CONNECTIONS st0) < 0"
  shows "\<exists>st r. main L env = Inr (1, st)
           \<and> filter is_loop_event (trace st) = []
           \<and> last (trace st) =
               EvWrite (global_log st1) (''[ERROR] Unable to create socket server: '' @ strerror L r)"
proof -
  note p0 = parse_options_keeps [OF parse init_state_wf]
  note p1 = open_log_keeps [OF log]
  let ?st = "emit (EvWrite (global_log st1) banner) st1"
  have w: "wf_state ?st" using p0 p1 by (simp add: emit_def)
  have t: "filter is_loop_event (trace ?st) = []"
    using p0 p1 by (simp add: init_state_def)
  have k': "k < global_port_count ?st" using k p0 p1 by (simp add: emit_def)
  have f': "create_result (servers env k) (global_ports ?st ! k) (global_family ?st) < 0"
    using fail p0 p1 by (simp add: fst_create_server emit_def)
  have "\<exists>st' r. setup_listeners L (servers env) 0 ?st = Inr (False, st')
           \<and> last (trace st') =
               EvWrite (global_log ?st) (''[ERROR] Unable to create socket server: '' @ strerror L r)"
    using w k' f' by (intro setup_listeners_fails [where k = k]) simp_all
  then obtain st r where s: "setup_listeners L (servers env) 0 ?st = Inr (False, st)"
    and l: "last (trace st) =
               EvWrite (global_log ?st) (''[ERROR] Unable to create socket server: '' @ strerror L r)"
    by auto
  from setup_listeners_keeps [OF w s] t have "filter is_loop_event (trace st) = []" by simp
  moreover have "main L env = Inr (1, st)" using parse log s by (simp add: main_def)
  moreover have "global_log ?st = global_log st1" by (simp add: emit_def)
  ultimately show ?thesis using l by auto
qed

theorem startup_all_or_nothing_witness:
  "parse_options (argv0 env_bind_fails) (getopt env_bind_fails) init_state = (True, parsed2)
   \<and> open_log sample_libc env_bind_fails parsed2 = (True, parsed2\<lparr>global_log := Some Stderr\<rparr>)
   \<and> 1 < global_port_count parsed2
   \<and> fst (create_server sample_libc (servers env_bind_fails 1) (global_ports parsed2 ! 1)
             (global_family parsed2) MAX_CONNECTIONS parsed2) < 0
   \<and> (\<exists>st r. main sample_libc env_bind_fails = Inr (1, st)
          \<and> filter is_loop_event (trace st) = []
          \<and> last (trace st) =
              EvWrite (Some Stderr)
                (''[ERROR] Unable to create socket server: '' @ strerror sample_libc r))
   \<and> observe (main sample_libc env_bind_fails) =
       Inr (1,
         [EvWrite (Some Stderr) (nl @ ''net-bouncer 0.1.0'' @ nl),
          EvSocket 2 3, EvSetsockopt 3 0, EvBind 3 2 22 0, EvListen 3 50 0,
          EvWrite (Some Stderr) ''[INFO] Listening to any address on the port 22'',
          EvSocket 2 4, EvSetsockopt 4 0, EvBind 4 2 23 (- 1), EvClose 4,
          EvWrite (Some Stderr) ''[ERROR] Unable to create socket server: Unknown error -1''])"
proof -
  have parse: "parse_options (argv0 env_bind_fails) (getopt env_bind_fails) init_state = (True, parsed2)"
    by (simp add: env_bind_fails_def parsed2_def init_state_def MAX_PORTS_def numeral_2_eq_2)
  have log: "open_log sample_libc env_bind_fails parsed2 = (True, parsed2\<lparr>global_log := Some Stderr\<rparr>)"
    by (simp add: open_log_def parsed2_def init_state_def)
  have k: "1 < global_port_count parsed2" by (simp add: parsed2_def)
  have fail: "fst (create_server sample_libc (servers env_bind_fails 1) (global_ports parsed2 ! 1)
             (global_family parsed2) MAX_CONNECTIONS parsed2) < 0"
    by (simp add: fst_create_server create_result_def env_bind_fails_def os_bind_fails_def
          parsed2_def init_state_def MAX_PORTS_def AF_INET_def)
  from startup_all_or_nothing [OF parse log k fail]
  have ex: "\<exists>st r. main sample_libc env_bind_fails = Inr (1, st)
          \<and> filter is_loop_event (trace st) = []
          \<and> last (trace st) =
              EvWrite (Some Stderr)
                (''[ERROR] Unable to create socket server: '' @ strerror sample_libc r)"
    by simp
  have run: "observe (main sample_libc env_bind_fails) =
       Inr (1,
         [EvWrite (Some Stderr) (nl @ ''net-bouncer 0.1.0'' @ nl),
          EvSocket 2 3, EvSetsockopt 3 0, EvBind 3 2 22 0, EvListen 3 50 0,
          EvWrite (Some Stderr) ''[INFO] Listening to any address on the port 22'',
          EvSocket 2 4, EvSetsockopt 4 0, EvBind 4 2 23 (- 1), EvClose 4,
          EvWrite (Some Stderr) ''[ERROR] Unable to create socket server: Unknown error -1''])"
    by (simp add: env_bind_fails_def both_ready_def env_defs run_defs)
  from parse log k fail ex run show ?thesis by blast
qed



end
